theory Spec2Isabelle
  imports Complex_Main "HOL-Library.Word" "HOL-Library.Signed_Division" "HOL-Library.Char_ord"
begin

section \<open>Data model of package vpnboard\<close>

text \<open>
  Go's \<open>int64\<close>, \<open>uint64\<close> and (on the 64-bit targets the program is built for) \<open>int\<close>
  and \<open>uint\<close> are 64-bit words: arithmetic wraps, \<open>sint\<close> reads the signed types,
  \<open>unat\<close> the unsigned ones. \<open>uint32\<close> is a 32-bit word. Strings are byte lists.
\<close>

type_synonym int64 = "64 word"
type_synonym uint64 = "64 word"
type_synonym goint = "64 word"
type_synonym uint32 = "32 word"

subsection \<open>float64\<close>

text \<open>
  A \<open>float64\<close> is an IEEE 754 binary64 value. \<open>Finite s m e\<close> stands for
  \<open>(-1)^s * m * 2^e\<close>; it is a value of the format when \<open>m < 2^53\<close> and
  \<open>-1074 \<le> e \<le> 971\<close> (several triples may denote one number: 1.5 is
  \<open>Finite False 3 (-1)\<close>).
\<close>

datatype float64 = Finite bool nat int | Infinity bool | NaN

text \<open>The number of binary digits of a natural number.\<close>

fun bitlen_nat :: "nat \<Rightarrow> nat" where
  "bitlen_nat n = (if n = 0 then 0 else Suc (bitlen_nat (n div 2)))"

declare bitlen_nat.simps [simp del]

text \<open>
  \<open>f64_pack s m e\<close> stores a significand of at most 53 bits (or exactly \<open>2^53\<close>, after a
  carry) with an exponent \<open>e \<ge> -1074\<close>; a magnitude of \<open>2^1024\<close> or more overflows to
  infinity.
\<close>

definition f64_pack :: "bool \<Rightarrow> nat \<Rightarrow> int \<Rightarrow> float64" where
  "f64_pack s m e =
     (let m1 = (if e > 971 then m * 2 ^ nat (e - 971) else m);
          e1 = (if e > 971 then 971 else e)
      in if m1 < 2 ^ 53 then Finite s m1 e1
         else if m1 = 2 ^ 53 \<and> e1 < 971 then Finite s (2 ^ 52) (e1 + 1)
         else Infinity s)"

text \<open>
  \<open>f64_round s M E\<close> is the binary64 value nearest to the exact number
  \<open>(-1)^s * M * 2^E\<close>, ties going to the even significand (the rounding mode of Go's
  floating-point arithmetic).
\<close>

definition f64_round :: "bool \<Rightarrow> nat \<Rightarrow> int \<Rightarrow> float64" where
  "f64_round s M E =
     (let sh = max (int (bitlen_nat M) - 53) (-1074 - E)
      in if sh \<le> 0 then f64_pack s M E
         else let d = 2 ^ nat sh; q = M div d; r = M mod d;
                  q1 = (if 2 * r > d \<or> (2 * r = d \<and> odd q) then q + 1 else q)
              in f64_pack s q1 (E + sh))"

text \<open>\<open>x * y\<close> on float64: the exact product, rounded once.\<close>

fun f64_mul :: "float64 \<Rightarrow> float64 \<Rightarrow> float64" where
  "f64_mul NaN _ = NaN"
| "f64_mul _ NaN = NaN"
| "f64_mul (Infinity s) (Infinity t) = Infinity (s \<noteq> t)"
| "f64_mul (Infinity s) (Finite t m e) = (if m = 0 then NaN else Infinity (s \<noteq> t))"
| "f64_mul (Finite s m e) (Infinity t) = (if m = 0 then NaN else Infinity (s \<noteq> t))"
| "f64_mul (Finite s m e) (Finite t n f) = f64_round (s \<noteq> t) (m * n) (e + f)"

text \<open>\<open>x / 2^k\<close> on float64 (the source divides by the constant 8): the exact quotient, rounded.\<close>

fun f64_div_pow2 :: "float64 \<Rightarrow> nat \<Rightarrow> float64" where
  "f64_div_pow2 NaN k = NaN"
| "f64_div_pow2 (Infinity s) k = Infinity s"
| "f64_div_pow2 (Finite s m e) k = f64_round s m (e - int k)"

text \<open>The untyped constant \<open>1000000\<close> converted to float64 (it is exact).\<close>

definition f64_1000000 :: float64 where
  "f64_1000000 = Finite False 1000000 0"

text \<open>\<open>x > 0\<close> on float64: false for NaN, zeros and negative values.\<close>

fun f64_gt0 :: "float64 \<Rightarrow> bool" where
  "f64_gt0 (Finite s m e) = (\<not> s \<and> m > 0)"
| "f64_gt0 (Infinity s) = (\<not> s)"
| "f64_gt0 NaN = False"

text \<open>
  The conversion \<open>uint64(x)\<close> of a float64 discards the fraction (truncation towards zero).
  When the truncated value is outside \<open>[0, 2^64)\<close>, or \<open>x\<close> is infinite or NaN, the Go
  specification leaves the result to the implementation: the parameter \<open>oor\<close> gives it.
\<close>

definition f64_trunc :: "nat \<Rightarrow> int \<Rightarrow> nat" where
  "f64_trunc m e = (if e \<ge> 0 then m * 2 ^ nat e else m div 2 ^ nat (- e))"

fun f64_to_uint64 :: "(float64 \<Rightarrow> uint64) \<Rightarrow> float64 \<Rightarrow> uint64" where
  "f64_to_uint64 oor (Finite s m e) =
     (let t = f64_trunc m e
      in if t = 0 then 0
         else if \<not> s \<and> t < 2 ^ 64 then of_nat t
         else oor (Finite s m e))"
| "f64_to_uint64 oor x = oor x"

text \<open>The exact rational value of a finite float64.\<close>

fun f64_val :: "float64 \<Rightarrow> rat" where
  "f64_val (Finite s m e) = (if s then - 1 else 1) * of_nat m * 2 powi e"
| "f64_val _ = 0"

text \<open>Whether a float64 is a number (not an infinity, not NaN).\<close>

fun f64_is_finite :: "float64 \<Rightarrow> bool" where
  "f64_is_finite (Finite s m e) = True"
| "f64_is_finite _ = False"

subsection \<open>Wire types (first source file)\<close>

record NodeInfoResponse =
  nir_Name :: string
  nir_Remarks :: string
  nir_Address :: string
  nir_Port :: int64
  nir_NodeOrder :: int64
  nir_NodeSpeedLimit :: int64
  nir_NodeType :: string
  nir_EnableTLS :: bool
  nir_Path :: string
  nir_TransportProtocol :: string
  nir_Host :: string
  nir_ServiceName :: string
  nir_EnableVless :: bool
  nir_Method :: string
  nir_ServerKey :: string

record UserListResponseItem =
  uli_UID :: goint
  uli_UUID :: string
  uli_UserName :: string
  uli_SpeedLimit :: uint64
  uli_DeviceLimit :: goint

record UserListResponse =
  ulr_List :: "UserListResponseItem list"

text \<open>\<open>Response\<close> is the common envelope; \<open>Data\<close> is the raw JSON text of the payload.\<close>

record Response =
  r_Code :: int64
  r_Msg :: string
  r_Data :: string

subsection \<open>Types of package api used by the client\<close>

text \<open>
  Modelled from the spec: the declarations of \<open>api.NodeInfo\<close>, \<open>api.UserInfo\<close> and
  \<open>api.DetectRule\<close> are in package api, which is not among the source files. The
  records are the entities of the specification's data model, with the fields the source
  assigns and the types of the expressions it assigns to them. A field the source does
  not assign keeps Go's zero value. The compiled pattern of a rule is of the type \<open>'re\<close>
  of the regexp library.
\<close>

record NodeInfo =
  ni_NodeType :: string
  ni_NodeID :: goint
  ni_Port :: uint32
  ni_SpeedLimit :: uint64
  ni_TransportProtocol :: string
  ni_Host :: string
  ni_Path :: string
  ni_EnableTLS :: bool
  ni_EnableVless :: bool
  ni_VlessFlow :: string
  ni_ServiceName :: string
  ni_CypherMethod :: string
  ni_ServerKey :: string

record UserInfo =
  ui_UID :: goint
  ui_UUID :: string
  ui_Email :: string
  ui_Passwd :: string
  ui_SpeedLimit :: uint64
  ui_DeviceLimit :: goint

record 're DetectRule =
  dr_ID :: goint
  dr_Pattern :: 're

subsection \<open>The client\<close>

text \<open>
  \<open>APIClient\<close> without the transport handle, the unused mutex and version and the
  report map; \<open>eTags\<close> is the Go map from resource name to the last token.
\<close>

record 're APIClient =
  c_APIHost :: string
  c_NodeID :: goint
  c_Key :: string
  c_NodeType :: string
  c_EnableVless :: bool
  c_VlessFlow :: string
  c_SpeedLimit :: float64
  c_DeviceLimit :: goint
  c_DisableCustomConfig :: bool
  c_LocalRuleList :: "'re DetectRule list"
  c_eTags :: "string \<rightharpoonup> string"

text \<open>Reading a Go map of strings: a missing key reads as the empty string.\<close>

definition eTag :: "'re APIClient \<Rightarrow> string \<Rightarrow> string" where
  "eTag c k = (case c_eTags c k of None \<Rightarrow> [] | Some v \<Rightarrow> v)"

subsection \<open>Errors\<close>

text \<open>
  Modelled from the spec: the texts \<open>api.NodeNotModified\<close> and \<open>api.UserNotModified\<close>
  are constants of package api, which is not among the source files; the errors made
  from them are the constructors \<open>NodeNotModified\<close> and \<open>UserNotModified\<close>, the
  distinguished not-modified conditions of the two resources. The other constructors are
  the errors the source makes, each with the parts its message is formatted from:
  the error of the transport handed on, the unsupported node type, the three failures of
  \<open>parseResponse\<close> and the two of decoding. An absent transport error (\<open>nil\<close>) is
  \<open>None\<close>.
\<close>

datatype error =
    TransportError string
  | NodeNotModified
  | UserNotModified
  | UnsupportedNodeType string
  | RequestFailed string string
  | RemoteFailure string string "string option"
  | RetInvalid string
  | UnmarshalFailed string string
  | ParseNodeInfoFailed string error

subsection \<open>Transport and JSON library\<close>

text \<open>
  A request as the client builds it: the path, the \<open>node_id\<close> of the body and the
  \<open>If-None-Match\<close> header. A response as the client reads it: the status code, the
  headers under their canonical keys, the body and the envelope decoded by the transport
  (\<open>res.Result()\<close>).
\<close>

record request =
  req_path :: string
  req_node_id :: goint
  req_if_none_match :: string

record http_response =
  res_StatusCode :: int
  res_Header :: "string \<rightharpoonup> string"
  res_Body :: string
  res_Result :: Response

text \<open>
  \<open>http.Header.Get\<close> looks a key up under its canonical form. For a key made of letters,
  digits and hyphens, as \<open>ETag\<close> and \<open>Etag\<close> are, that is the key with the first letter
  and each letter after a hyphen in upper case and the others in lower case.
\<close>

definition upper_ascii :: "char \<Rightarrow> char" where
  "upper_ascii ch = (if 97 \<le> (of_char ch :: nat) \<and> (of_char ch :: nat) \<le> 122
                      then char_of (of_char ch - (32 :: nat)) else ch)"

definition lower_ascii :: "char \<Rightarrow> char" where
  "lower_ascii ch = (if 65 \<le> (of_char ch :: nat) \<and> (of_char ch :: nat) \<le> 90
                      then char_of (of_char ch + (32 :: nat)) else ch)"

fun canonical_from :: "bool \<Rightarrow> string \<Rightarrow> string" where
  "canonical_from up [] = []"
| "canonical_from up (ch # cs) =
     (if up then upper_ascii ch else lower_ascii ch) # canonical_from (ch = CHR ''-'') cs"

definition CanonicalMIMEHeaderKey :: "string \<Rightarrow> string" where
  "CanonicalMIMEHeaderKey k = canonical_from True k"

definition header_Get :: "http_response \<Rightarrow> string \<Rightarrow> string" where
  "header_Get res k = (case res_Header res (CanonicalMIMEHeaderKey k) of None \<Rightarrow> [] | Some v \<Rightarrow> v)"

text \<open>
  What the client is given from outside: \<open>post\<close> is the transport's \<open>Post\<close> on the
  state of the network (it returns a transport error or a response),
  \<open>unmarshalNodeInfo\<close> and \<open>unmarshalUserList\<close> are \<open>json.Unmarshal\<close> at the two payload
  types, \<open>marshalResponse\<close> and \<open>marshalNodeInfoResponse\<close> are \<open>json.Marshal\<close>, and
  \<open>uint64_out_of_range\<close> is the result of \<open>uint64(x)\<close> where Go leaves it to the
  implementation.
\<close>

record 'net env =
  post :: "request \<Rightarrow> 'net \<Rightarrow> (string + http_response) \<times> 'net"
  unmarshalNodeInfo :: "string \<Rightarrow> string + NodeInfoResponse"
  unmarshalUserList :: "string \<Rightarrow> string + UserListResponse"
  marshalResponse :: "Response \<Rightarrow> string"
  marshalNodeInfoResponse :: "NodeInfoResponse \<Rightarrow> string"
  uint64_out_of_range :: "float64 \<Rightarrow> uint64"

section \<open>Operations of the client (second source file)\<close>

definition assembleURL :: "'re APIClient \<Rightarrow> string \<Rightarrow> string" where
  "assembleURL c path = c_APIHost c @ path"

definition parseResponse ::
  "'net env \<Rightarrow> 're APIClient \<Rightarrow> http_response \<Rightarrow> string \<Rightarrow> string option
     \<Rightarrow> error + Response" where
  "parseResponse env c res path err =
     (case err of
        Some e \<Rightarrow> Inl (RequestFailed (assembleURL c path) e)
      | None \<Rightarrow>
          if res_StatusCode res > 400
          then Inl (RemoteFailure (assembleURL c path) (res_Body res) err)
          else let response = res_Result res
               in if r_Code response \<noteq> 0
                  then Inl (RetInvalid (marshalResponse env response))
                  else Inr response)"

text \<open>
  The two speed-limit conversions of integers: \<open>int64\<close> arithmetic (the quotient
  truncated towards zero) converted to \<open>uint64\<close> for the node, \<open>uint64\<close> arithmetic
  for a user.
\<close>

definition node_panel_limit :: "int64 \<Rightarrow> uint64" where
  "node_panel_limit n = word_of_int (sint (n * 1000000) sdiv 8)"

definition user_panel_limit :: "uint64 \<Rightarrow> uint64" where
  "user_panel_limit n = n * 1000000 div 8"

text \<open>The conversion of the float64 override: \<open>uint64(c.SpeedLimit * 1000000 / 8)\<close>.\<close>

definition override_limit :: "'net env \<Rightarrow> float64 \<Rightarrow> uint64" where
  "override_limit env x =
     f64_to_uint64 (uint64_out_of_range env) (f64_div_pow2 (f64_mul x f64_1000000) 3)"

definition parseNodeInfo ::
  "'net env \<Rightarrow> 're APIClient \<Rightarrow> NodeInfoResponse \<Rightarrow> error + NodeInfo" where
  "parseNodeInfo env c nodeInfoResponse =
     (let speedLimit =
            (if f64_gt0 (c_SpeedLimit c) then override_limit env (c_SpeedLimit c)
             else node_panel_limit (nir_NodeSpeedLimit nodeInfoResponse))
      in Inr \<lparr> ni_NodeType = nir_NodeType nodeInfoResponse,
               ni_NodeID = c_NodeID c,
               ni_Port = ucast (nir_Port nodeInfoResponse),
               ni_SpeedLimit = speedLimit,
               ni_TransportProtocol = nir_TransportProtocol nodeInfoResponse,
               ni_Host = nir_Host nodeInfoResponse,
               ni_Path = nir_Path nodeInfoResponse,
               ni_EnableTLS = nir_EnableTLS nodeInfoResponse,
               ni_EnableVless = nir_EnableVless nodeInfoResponse,
               ni_VlessFlow = c_VlessFlow c,
               ni_ServiceName = nir_ServiceName nodeInfoResponse,
               ni_CypherMethod = nir_Method nodeInfoResponse,
               ni_ServerKey = nir_ServerKey nodeInfoResponse \<rparr>)"

text \<open>Storing a new token (both operations do it the same way, each for its resource).\<close>

definition update_eTag ::
  "'re APIClient \<Rightarrow> string \<Rightarrow> http_response \<Rightarrow> string \<Rightarrow> 're APIClient" where
  "update_eTag c resource res key =
     (if header_Get res key \<noteq> [] \<and> header_Get res key \<noteq> eTag c resource
      then c\<lparr>c_eTags := (c_eTags c)(resource \<mapsto> header_Get res key)\<rparr>
      else c)"

definition node_request :: "'re APIClient \<Rightarrow> request" where
  "node_request c = \<lparr> req_path = ''/api/public/xrayr/node/info'', req_node_id = c_NodeID c,
                       req_if_none_match = eTag c ''node'' \<rparr>"

definition GetNodeInfo ::
  "'net env \<Rightarrow> 're APIClient \<Rightarrow> 'net
     \<Rightarrow> (error + NodeInfo) \<times> 're APIClient \<times> 'net" where
  "GetNodeInfo env c net =
     (let path = ''/api/public/xrayr/node/info''
      in (case post env (node_request c) net of
           (Inl err, net1) \<Rightarrow> (Inl (TransportError err), c, net1)
         | (Inr res, net1) \<Rightarrow>
             if res_StatusCode res = 304 then (Inl NodeNotModified, c, net1)
             else
               let c1 = update_eTag c ''node'' res ''ETag''
               in (case parseResponse env c1 res path None of
                     Inl e \<Rightarrow> (Inl e, c1, net1)
                   | Inr response \<Rightarrow>
                       (case unmarshalNodeInfo env (r_Data response) of
                          Inl e \<Rightarrow>
                            (Inl (UnmarshalFailed ''*vpnboard.NodeInfoResponse'' e), c1, net1)
                        | Inr nodeInfoResponse \<Rightarrow>
                            (case parseNodeInfo env c1 nodeInfoResponse of
                               Inl e \<Rightarrow>
                                 (Inl (ParseNodeInfoFailed
                                         (marshalNodeInfoResponse env nodeInfoResponse) e),
                                  c1, net1)
                             | Inr nodeInfo \<Rightarrow> (Inr nodeInfo, c1, net1))))))"

subsection \<open>Regular expressions of the email check\<close>

text \<open>
  The constructs the pattern of \<open>isEmailFormat\<close> is written with: a literal byte, a
  character class (a list of inclusive ranges of bytes) repeated \<open>n\<close> times or more (\<open>+\<close> is
  \<open>{1,}\<close>) and concatenation; \<open>Zero\<close>, \<open>One\<close> and \<open>Alt\<close> arise when a byte is consumed.
  The pattern is anchored by \<open>^\<close> and \<open>$\<close>, so \<open>MatchString\<close> asks whether the whole string
  is in its language; that is decided byte by byte.
\<close>

type_synonym char_class = "(char \<times> char) list"

datatype rx = Zero | One | Lit char | Rep char_class nat | Cat rx rx | Alt rx rx

definition in_class :: "char_class \<Rightarrow> char \<Rightarrow> bool" where
  "in_class cls ch =
     list_ex (\<lambda>(lo, hi). lo \<le> ch \<and> ch \<le> hi) cls"

fun nullable :: "rx \<Rightarrow> bool" where
  "nullable Zero = False"
| "nullable One = True"
| "nullable (Lit d) = False"
| "nullable (Rep cls n) = (n = 0)"
| "nullable (Cat r s) = (nullable r \<and> nullable s)"
| "nullable (Alt r s) = (nullable r \<or> nullable s)"

fun deriv :: "char \<Rightarrow> rx \<Rightarrow> rx" where
  "deriv ch Zero = Zero"
| "deriv ch One = Zero"
| "deriv ch (Lit d) = (if ch = d then One else Zero)"
| "deriv ch (Rep cls n) = (if in_class cls ch then Rep cls (n - 1) else Zero)"
| "deriv ch (Cat r s) =
     (if nullable r then Alt (Cat (deriv ch r) s) (deriv ch s) else Cat (deriv ch r) s)"
| "deriv ch (Alt r s) = Alt (deriv ch r) (deriv ch s)"

fun MatchString :: "rx \<Rightarrow> string \<Rightarrow> bool" where
  "MatchString r [] = nullable r"
| "MatchString r (ch # cs) = MatchString (deriv ch r) cs"

text \<open>The pattern \<^verbatim>\<open>^[a-zA-Z0-9._%+-]+@[a-zA-Z0-9.-]+\.[a-zA-Z]{2,}$\<close>.\<close>

definition local_class :: char_class where
  "local_class = [(CHR ''a'', CHR ''z''), (CHR ''A'', CHR ''Z''), (CHR ''0'', CHR ''9''),
                  (CHR ''.'', CHR ''.''), (CHR ''_'', CHR ''_''), (CHR ''%'', CHR ''%''),
                  (CHR ''+'', CHR ''+''), (CHR ''-'', CHR ''-'')]"

definition domain_class :: char_class where
  "domain_class = [(CHR ''a'', CHR ''z''), (CHR ''A'', CHR ''Z''), (CHR ''0'', CHR ''9''),
                   (CHR ''.'', CHR ''.''), (CHR ''-'', CHR ''-'')]"

definition letter_class :: char_class where
  "letter_class = [(CHR ''a'', CHR ''z''), (CHR ''A'', CHR ''Z'')]"

definition emailPattern :: rx where
  "emailPattern =
     Cat (Rep local_class 1) (Cat (Lit CHR ''@'') (Cat (Rep domain_class 1)
       (Cat (Lit CHR ''.'') (Rep letter_class 2))))"

definition isEmailFormat :: "string \<Rightarrow> bool" where
  "isEmailFormat email = MatchString emailPattern email"

subsection \<open>GetUserList\<close>

text \<open>The body of the loop of \<open>GetUserList\<close>: the record made from one panel user.\<close>

definition userInfo :: "'net env \<Rightarrow> 're APIClient \<Rightarrow> UserListResponseItem \<Rightarrow> UserInfo" where
  "userInfo env c user =
     \<lparr> ui_UID = uli_UID user,
       ui_UUID = uli_UUID user,
       ui_Email = (if isEmailFormat (uli_UserName user) then uli_UserName user
                   else uli_UserName user @ ''@vpnboard.user''),
       ui_Passwd = (if c_NodeType c = ''Shadowsocks'' then uli_UUID user else []),
       ui_SpeedLimit = (if f64_gt0 (c_SpeedLimit c) then override_limit env (c_SpeedLimit c)
                        else user_panel_limit (uli_SpeedLimit user)),
       ui_DeviceLimit = (if 0 < sint (c_DeviceLimit c) then c_DeviceLimit c
                         else uli_DeviceLimit user) \<rparr>"

definition users_request :: "'re APIClient \<Rightarrow> request" where
  "users_request c = \<lparr> req_path = ''/api/public/xrayr/user/list'', req_node_id = c_NodeID c,
                        req_if_none_match = eTag c ''users'' \<rparr>"

definition supported_node_types :: "string list" where
  "supported_node_types = [''V2ray'', ''Trojan'', ''Shadowsocks'', ''Vmess'', ''Vless'']"

definition GetUserList ::
  "'net env \<Rightarrow> 're APIClient \<Rightarrow> 'net \<Rightarrow> (error + UserInfo list) \<times> 're APIClient \<times> 'net" where
  "GetUserList env c net =
     (let path = ''/api/public/xrayr/user/list''
      in if c_NodeType c \<notin> set supported_node_types
         then (Inl (UnsupportedNodeType (c_NodeType c)), c, net)
         else
           (case post env (users_request c) net of
              (Inl err, net1) \<Rightarrow> (Inl (TransportError err), c, net1)
            | (Inr res, net1) \<Rightarrow>
                if res_StatusCode res = 304 then (Inl UserNotModified, c, net1)
                else
                  let c1 = update_eTag c ''users'' res ''Etag''
                  in (case parseResponse env c1 res path None of
                        Inl e \<Rightarrow> (Inl e, c1, net1)
                      | Inr response \<Rightarrow>
                          (case unmarshalUserList env (r_Data response) of
                             Inl e \<Rightarrow>
                               (Inl (UnmarshalFailed ''*vpnboard.UserListResponse'' e), c1, net1)
                           | Inr userListResponse \<Rightarrow>
                               (Inr (map (userInfo env c1) (ulr_List userListResponse)),
                                c1, net1)))))"

subsection \<open>The token a client holds after an answer\<close>

text \<open>
  \<open>token_after stored r\<close> is the token of a resource after the transport's answer \<open>r\<close>
  when it was \<open>stored\<close> before: the \<open>Etag\<close> header of a response that is not a 304
  and carries a non-empty one, and \<open>stored\<close> in every other case.
\<close>

definition token_after ::
  "string \<Rightarrow> (string + http_response) \<Rightarrow> string" where
  "token_after stored r =
     (case r of
        Inl e \<Rightarrow> stored
      | Inr res \<Rightarrow>
          if res_StatusCode res \<noteq> 304 \<and> header_Get res ''Etag'' \<noteq> []
          then header_Get res ''Etag'' else stored)"

subsection \<open>The email grammar, as the specification words it\<close>

text \<open>
  An email address is a local part, then \<open>@\<close>, then a domain, then a dot, then a
  top-level domain: the local part is one or more ASCII letters, digits or bytes of
  \<open>._%+-\<close>; the domain is one or more ASCII letters, digits, dots or hyphens; the
  top-level domain is two or more ASCII letters.
\<close>

definition is_letter :: "char \<Rightarrow> bool" where
  "is_letter ch = (CHR ''a'' \<le> ch \<and> ch \<le> CHR ''z'' \<or> CHR ''A'' \<le> ch \<and> ch \<le> CHR ''Z'')"

definition is_digit :: "char \<Rightarrow> bool" where
  "is_digit ch = (CHR ''0'' \<le> ch \<and> ch \<le> CHR ''9'')"

definition local_char :: "char \<Rightarrow> bool" where
  "local_char ch = (is_letter ch \<or> is_digit ch \<or> ch \<in> set ''._%+-'')"

definition domain_char :: "char \<Rightarrow> bool" where
  "domain_char ch = (is_letter ch \<or> is_digit ch \<or> ch \<in> set ''.-'')"

definition email_grammar :: "string \<Rightarrow> bool" where
  "email_grammar s =
     (\<exists>loc dom tld. s = loc @ ''@'' @ dom @ ''.'' @ tld
        \<and> loc \<noteq> [] \<and> (\<forall>ch \<in> set loc. local_char ch)
        \<and> dom \<noteq> [] \<and> (\<forall>ch \<in> set dom. domain_char ch)
        \<and> 2 \<le> length tld \<and> (\<forall>ch \<in> set tld. is_letter ch))"

text \<open>The language of an expression: the strings it matches as a whole.\<close>

fun lang :: "rx \<Rightarrow> string set" where
  "lang Zero = {}"
| "lang One = {[]}"
| "lang (Lit d) = {[d]}"
| "lang (Rep cls n) = {w. n \<le> length w \<and> (\<forall>ch \<in> set w. in_class cls ch)}"
| "lang (Cat r s) = {u @ v | u v. u \<in> lang r \<and> v \<in> lang s}"
| "lang (Alt r s) = lang r \<union> lang s"

subsection \<open>readLocalRuleList\<close>

text \<open>
  What the loader is given from outside: \<open>os_Open\<close> opens a path (an error text or a
  file), \<open>scan\<close> is the run of a \<open>bufio.Scanner\<close> over a file (the lines it yields,
  in order, and the error \<open>Err()\<close> reports when it stops), \<open>close\<close> closes a file and
  \<open>compile\<close> is \<open>regexp.Compile\<close>.
\<close>

record ('f, 're) filesystem =
  os_Open :: "string \<Rightarrow> string + 'f"
  scan :: "'f \<Rightarrow> string list \<times> string option"
  close :: "'f \<Rightarrow> string option"
  compile :: "string \<Rightarrow> string + 're"

text \<open>
  How a call ends: it returns the rules, or \<open>regexp.MustCompile\<close> panics (with the
  pattern and the error of the compiler), or \<open>log.Fatalf\<close> ends the process.
\<close>

datatype 're outcome = Return "'re DetectRule list" | MustCompilePanic string string | FatalExit

text \<open>The loop over the lines of the scanner; the first pattern that does not compile panics.\<close>

fun scan_loop ::
  "('f, 're) filesystem \<Rightarrow> string list \<Rightarrow> 're DetectRule list \<Rightarrow> (string \<times> string) + 're DetectRule list" where
  "scan_loop fs [] LocalRuleList = Inr LocalRuleList"
| "scan_loop fs (line # rest) LocalRuleList =
     (case compile fs line of
        Inl e \<Rightarrow> Inl (line, e)
      | Inr re \<Rightarrow> scan_loop fs rest (LocalRuleList @ [\<lparr> dr_ID = - 1, dr_Pattern = re \<rparr>]))"

text \<open>
  The deferred function: it closes the file and logs the error of closing, if any. For the
  nil file of a failed open, \<open>Close\<close> returns \<open>os.ErrInvalid\<close>.
\<close>

definition deferred_close :: "('f, 're) filesystem \<Rightarrow> 'f option \<Rightarrow> string list" where
  "deferred_close fs file =
     (case (case file of None \<Rightarrow> Some ''invalid argument'' | Some f \<Rightarrow> close fs f) of
        None \<Rightarrow> []
      | Some err \<Rightarrow> [''Error when closing file: '' @ err])"

text \<open>
  The result is the outcome and the lines logged. A panic runs the deferred function,
  \<open>log.Fatalf\<close> does not.
\<close>

definition readLocalRuleList ::
  "('f, 're) filesystem \<Rightarrow> string \<Rightarrow> 're outcome \<times> string list" where
  "readLocalRuleList fs path =
     (if path \<noteq> []
      then (case os_Open fs path of
              Inl err \<Rightarrow>
                (Return [], [''Error when opening file: '' @ err] @ deferred_close fs None)
            | Inr file \<Rightarrow>
                (case scan fs file of
                   (lines, scan_err) \<Rightarrow>
                     (case scan_loop fs lines [] of
                        Inl (line, e) \<Rightarrow> (MustCompilePanic line e, deferred_close fs (Some file))
                      | Inr LocalRuleList \<Rightarrow>
                          (case scan_err of
                             Some err \<Rightarrow> (FatalExit, [''Error while reading file: '' @ err])
                           | None \<Rightarrow> (Return LocalRuleList, deferred_close fs (Some file))))))
      else (Return [], []))"

section \<open>Example inputs\<close>

text \<open>
  A transport that records every request it is given (\<open>spy\<close>), the client of the
  test file, and a small panel: two users, one node, one response.
\<close>

definition spy :: "(request \<Rightarrow> string + http_response) \<Rightarrow> request \<Rightarrow> request list
    \<Rightarrow> (string + http_response) \<times> request list" where
  "spy server r sent = (server r, sent @ [r])"

definition test_client :: "string \<Rightarrow> string APIClient" where
  "test_client t =
     \<lparr> c_APIHost = ''http://127.0.0.1:3000'', c_NodeID = 4, c_Key = ''123'', c_NodeType = t,
       c_EnableVless = False, c_VlessFlow = [], c_SpeedLimit = Finite False 0 0,
       c_DeviceLimit = 0, c_DisableCustomConfig = False, c_LocalRuleList = [],
       c_eTags = Map.empty \<rparr>"

definition test_users :: "UserListResponseItem list" where
  "test_users =
     [\<lparr> uli_UID = 1, uli_UUID = ''u-1'', uli_UserName = ''a@b.com'', uli_SpeedLimit = 10,
        uli_DeviceLimit = 2 \<rparr>,
      \<lparr> uli_UID = 2, uli_UUID = ''u-2'', uli_UserName = ''plainuser'', uli_SpeedLimit = 0,
        uli_DeviceLimit = 0 \<rparr>]"

definition test_node :: NodeInfoResponse where
  "test_node =
     \<lparr> nir_Name = ''n'', nir_Remarks = [], nir_Address = ''example.org'', nir_Port = 443,
       nir_NodeOrder = 0, nir_NodeSpeedLimit = 100, nir_NodeType = ''V2ray'',
       nir_EnableTLS = True, nir_Path = ''/'', nir_TransportProtocol = ''ws'', nir_Host = [],
       nir_ServiceName = [], nir_EnableVless = False, nir_Method = [], nir_ServerKey = [] \<rparr>"

definition test_response :: "int \<Rightarrow> string \<Rightarrow> int64 \<Rightarrow> string \<Rightarrow> http_response" where
  "test_response st tok code dat =
     \<lparr> res_StatusCode = st, res_Header = [''Etag'' \<mapsto> tok], res_Body = ''body'',
       res_Result = \<lparr> r_Code = code, r_Msg = ''msg'', r_Data = dat \<rparr> \<rparr>"

definition test_env :: "(request \<Rightarrow> string + http_response) \<Rightarrow> request list env" where
  "test_env server =
     \<lparr> post = spy server,
       unmarshalNodeInfo = (\<lambda>s. if s = ''data'' then Inr test_node else Inl ''bad json''),
       unmarshalUserList =
         (\<lambda>s. if s = ''data'' then Inr \<lparr> ulr_List = test_users \<rparr> else Inl ''bad json''),
       marshalResponse = r_Msg,
       marshalNodeInfoResponse = nir_Name,
       uint64_out_of_range = (\<lambda>x. 2 ^ 63) \<rparr>"

text \<open>The client of the test file with overrides: 1.5 Mbps and 5 devices.\<close>

definition override_client :: "string APIClient" where
  "override_client = (test_client ''V2ray'')\<lparr> c_SpeedLimit := Finite False 3 (- 1), c_DeviceLimit := 5 \<rparr>"

text \<open>
  The client of the test file with an override of 0.1 Mbps: the float64 nearest to 0.1 is
  \<open>7205759403792794 * 2^-56\<close>.
\<close>

definition tenth_client :: "string APIClient" where
  "tenth_client = (test_client ''V2ray'')\<lparr> c_SpeedLimit := Finite False 7205759403792794 (- 56) \<rparr>"

text \<open>A panel user whose limit in Mbps, times 1000000, does not fit 64 bits.\<close>

definition big_user :: UserListResponseItem where
  "big_user = \<lparr> uli_UID = 3, uli_UUID = ''u-3'', uli_UserName = ''big'',
                 uli_SpeedLimit = 18446744073710, uli_DeviceLimit = 0 \<rparr>"

text \<open>
  A file system with one rule file of three lines (the second is empty) and one whose
  second line is not a pattern; a pattern compiles to itself unless it is an open
  parenthesis.
\<close>

definition test_fs :: "(string list, string) filesystem" where
  "test_fs =
     \<lparr> os_Open = (\<lambda>p. if p = ''rules.txt'' then Inr [''a+'', [], ''b'']
                      else if p = ''bad.txt'' then Inr [''a+'', ''('', ''b'']
                      else Inl ''no such file or directory''),
       scan = (\<lambda>f. (f, None)),
       close = (\<lambda>f. None),
       compile = (\<lambda>s. if s = ''('' then Inl ''missing closing )'' else Inr s) \<rparr>"

section \<open>Auxiliary facts\<close>

lemma update_eTag_fields [simp]:
  "c_NodeType (update_eTag c r res k) = c_NodeType c"
  "c_SpeedLimit (update_eTag c r res k) = c_SpeedLimit c"
  "c_DeviceLimit (update_eTag c r res k) = c_DeviceLimit c"
  "c_APIHost (update_eTag c r res k) = c_APIHost c"
  "c_NodeID (update_eTag c r res k) = c_NodeID c"
  "c_VlessFlow (update_eTag c r res k) = c_VlessFlow c"
  by (simp_all add: update_eTag_def)

lemma GetUserList_Inr:
  assumes "fst (GetUserList env c net) = Inr us"
  obtains res ulr net1 where
    "post env (users_request c) net = (Inr res, net1)"
    "c_NodeType c \<in> set supported_node_types"
    "res_StatusCode res \<noteq> 304" "\<not> res_StatusCode res > 400"
    "r_Code (res_Result res) = 0"
    "unmarshalUserList env (r_Data (res_Result res)) = Inr ulr"
    "us = map (userInfo env (update_eTag c ''users'' res ''Etag'')) (ulr_List ulr)"
  using assms
  by (auto simp: GetUserList_def parseResponse_def Let_def
           split: if_splits prod.splits sum.splits)

lemma GetNodeInfo_Inr:
  assumes "fst (GetNodeInfo env c net) = Inr ni"
  obtains res nir net1 where
    "post env (node_request c) net = (Inr res, net1)"
    "res_StatusCode res \<noteq> 304" "\<not> res_StatusCode res > 400"
    "r_Code (res_Result res) = 0"
    "unmarshalNodeInfo env (r_Data (res_Result res)) = Inr nir"
    "parseNodeInfo env (update_eTag c ''node'' res ''ETag'') nir = Inr ni"
  using assms
  by (auto simp: GetNodeInfo_def parseResponse_def Let_def
           split: if_splits prod.splits sum.splits)

lemma isEmailFormat_examples:
  "isEmailFormat ''a@b.com''" "\<not> isEmailFormat ''plainuser''"
  by (simp_all add: isEmailFormat_def emailPattern_def in_class_def local_class_def
        domain_class_def letter_class_def)

lemma test_GetUserList:
  "t \<in> set supported_node_types \<Longrightarrow>
   fst (GetUserList (test_env (\<lambda>r. Inr (test_response 200 ''v1'' 0 ''data''))) (test_client t) [])
     = Inr [\<lparr>ui_UID = 1, ui_UUID = ''u-1'', ui_Email = ''a@b.com'',
             ui_Passwd = (if t = ''Shadowsocks'' then ''u-1'' else []),
             ui_SpeedLimit = 1250000, ui_DeviceLimit = 2\<rparr>,
            \<lparr>ui_UID = 2, ui_UUID = ''u-2'', ui_Email = ''plainuser@vpnboard.user'',
             ui_Passwd = (if t = ''Shadowsocks'' then ''u-2'' else []),
             ui_SpeedLimit = 0, ui_DeviceLimit = 0\<rparr>]"
  by (simp add: GetUserList_def parseResponse_def test_env_def spy_def test_response_def
       Let_def userInfo_def test_client_def update_eTag_def test_users_def
       isEmailFormat_examples user_panel_limit_def)

lemma test_GetNodeInfo_bad:
  "fst (GetNodeInfo (test_env (\<lambda>r. Inr (test_response 200 ''v1'' 0 ''{'')))
          (test_client ''V2ray'') [])
     = Inl (UnmarshalFailed ''*vpnboard.NodeInfoResponse'' ''bad json'')"
  by (simp add: GetNodeInfo_def parseResponse_def test_env_def spy_def test_response_def)

lemma canonical_ETag: "CanonicalMIMEHeaderKey ''ETag'' = ''Etag''" "CanonicalMIMEHeaderKey ''Etag'' = ''Etag''"
  by code_simp+

lemma header_Get_ETag: "header_Get res ''ETag'' = header_Get res ''Etag''"
  by (simp add: header_Get_def canonical_ETag)

lemma nullable_lang: "nullable r \<longleftrightarrow> [] \<in> lang r"
  by (induction r) auto

lemma lang_deriv: "lang (deriv ch r) = {w. ch # w \<in> lang r}"
proof (induction r)
  case (Rep cls n)
  show ?case by (cases n) auto
next
  case (Cat r s)
  then show ?case
    by (auto simp: nullable_lang Cons_eq_append_conv)
qed auto

lemma MatchString_lang: "MatchString r w \<longleftrightarrow> w \<in> lang r"
  by (induction w arbitrary: r) (simp_all add: nullable_lang lang_deriv)

lemma single_range: "(lo \<le> ch \<and> ch \<le> lo) \<longleftrightarrow> ch = lo" for ch :: char
  by auto

lemma in_local_class: "in_class local_class ch \<longleftrightarrow> local_char ch"
  unfolding in_class_def local_class_def local_char_def is_letter_def is_digit_def
  by (simp add: single_range)

lemma in_domain_class: "in_class domain_class ch \<longleftrightarrow> domain_char ch"
  unfolding in_class_def domain_class_def domain_char_def is_letter_def is_digit_def
  by (simp add: single_range)

lemma in_letter_class: "in_class letter_class ch \<longleftrightarrow> is_letter ch"
  unfolding in_class_def letter_class_def is_letter_def
  by simp

lemma lang_emailPattern:
  "lang emailPattern =
     {loc @ ''@'' @ dom @ ''.'' @ tld | loc dom tld.
        1 \<le> length loc \<and> (\<forall>ch \<in> set loc. local_char ch)
        \<and> 1 \<le> length dom \<and> (\<forall>ch \<in> set dom. domain_char ch)
        \<and> 2 \<le> length tld \<and> (\<forall>ch \<in> set tld. is_letter ch)}"
  unfolding emailPattern_def
  by (simp add: in_local_class in_domain_class in_letter_class) blast

lemma isEmailFormat_grammar: "isEmailFormat s \<longleftrightarrow> email_grammar s"
proof -
  have "1 \<le> length w \<longleftrightarrow> w \<noteq> []" for w :: string
    by (cases w) simp_all
  then show ?thesis
    unfolding isEmailFormat_def MatchString_lang lang_emailPattern email_grammar_def
    by simp
qed

lemma bitlen_nat_3000000: "bitlen_nat 3000000 = 22"
  by (simp add: bitlen_nat.simps)

lemma override_limit_example: "override_limit env (Finite False 3 (- 1)) = 187500"
  by (simp add: override_limit_def f64_1000000_def f64_round_def f64_pack_def bitlen_nat_3000000
        f64_trunc_def Let_def)

lemma userInfo_update_eTag: "userInfo env (update_eTag c r res k) u = userInfo env c u"
  by (simp add: userInfo_def)

lemma test_GetUserList_any:
  "c_NodeType c \<in> set supported_node_types \<Longrightarrow>
   fst (GetUserList (test_env (\<lambda>r. Inr (test_response 200 ''v1'' 0 ''data''))) c [])
     = Inr (map (userInfo (test_env (\<lambda>r. Inr (test_response 200 ''v1'' 0 ''data''))) c) test_users)"
  by (simp add: GetUserList_def parseResponse_def Let_def userInfo_update_eTag
        test_env_def spy_def test_response_def)

lemma bitlen_nat_upper: "n < 2 ^ bitlen_nat n"
proof (induction n rule: bitlen_nat.induct)
  case (1 n)
  show ?case
  proof (cases "n = 0")
    case True
    then show ?thesis by (simp add: bitlen_nat.simps)
  next
    case False
    with 1 have "n div 2 < 2 ^ bitlen_nat (n div 2)" by simp
    then have "n < 2 * 2 ^ bitlen_nat (n div 2)" by linarith
    with False show ?thesis by (subst bitlen_nat.simps) simp
  qed
qed

lemma bitlen_nat_le: "n < 2 ^ j \<Longrightarrow> bitlen_nat n \<le> j"
proof (induction n arbitrary: j rule: bitlen_nat.induct)
  case (1 n)
  show ?case
  proof (cases "n = 0")
    case True
    then show ?thesis by (simp add: bitlen_nat.simps)
  next
    case False
    with "1.prems" obtain i where j: "j = Suc i" by (cases j) auto
    with "1.prems" have "n div 2 < 2 ^ i" by simp
    with 1 False have "bitlen_nat (n div 2) \<le> i" by simp
    with False j show ?thesis by (subst bitlen_nat.simps) simp
  qed
qed

lemma f64_round_exact:
  assumes d: "2 ^ (bitlen_nat M - 53) dvd M"
    and lo: "- 1074 \<le> E"
    and hi: "E + int (bitlen_nat M - 53) \<le> 971"
  shows "f64_round s M E
           = Finite s (M div 2 ^ (bitlen_nat M - 53)) (E + int (bitlen_nat M - 53))"
proof (cases "bitlen_nat M \<le> 53")
  case True
  then have k: "bitlen_nat M - 53 = 0" by simp
  from True have sh: "max (int (bitlen_nat M) - 53) (- 1074 - E) \<le> 0"
    using lo by simp
  have "M < 2 ^ bitlen_nat M" by (rule bitlen_nat_upper)
  also have "\<dots> \<le> 2 ^ 53" using True by (intro power_increasing) simp_all
  finally have "M < 2 ^ 53" .
  with sh hi k show ?thesis
    by (simp add: f64_round_def f64_pack_def Let_def)
next
  case False
  define k where "k = bitlen_nat M - 53"
  from False have k: "0 < k" "bitlen_nat M = k + 53" by (simp_all add: k_def)
  then have sh: "max (int (bitlen_nat M) - 53) (- 1074 - E) = int k"
    using lo by simp
  from d have r: "M mod 2 ^ k = 0" by (simp add: k_def)
  have "M < 2 ^ (k + 53)" using bitlen_nat_upper [of M] k by simp
  then have "M < 2 ^ 53 * 2 ^ k" by (simp add: power_add mult.commute)
  then have q: "M div 2 ^ k < 2 ^ 53"
    by (simp add: less_mult_imp_div_less)
  from hi have hi': "E + int k \<le> 971" by (simp add: k_def)
  show ?thesis
    unfolding k_def [symmetric]
    using sh r q hi' k(1)
    by (simp add: f64_round_def f64_pack_def Let_def)
qed

lemma floor_nat_powi: "\<lfloor>(of_nat q :: rat) * 2 powi j\<rfloor> = int (f64_trunc q j)"
proof (cases "0 \<le> j")
  case True
  then have "(of_nat q :: rat) * 2 powi j = of_nat (q * 2 ^ nat j)"
    by (simp add: power_int_def)
  moreover have "f64_trunc q j = q * 2 ^ nat j"
    using True by (simp add: f64_trunc_def)
  ultimately show ?thesis by (simp only: floor_of_nat)
next
  case False
  define n where "n = nat (- j)"
  have "(2::rat) powi j = inverse (2 ^ n)"
    using False by (simp add: power_int_def n_def power_divide inverse_eq_divide)
  then have "(of_nat q :: rat) * 2 powi j = of_nat q / of_nat (2 ^ n)"
    by (simp add: divide_inverse)
  moreover have "f64_trunc q j = q div 2 ^ n"
    using False by (simp add: f64_trunc_def n_def)
  ultimately show ?thesis by (simp only: floor_divide_of_nat_eq)
qed


lemma user_panel_limit_exact:
  assumes "unat n * 1000000 < 2 ^ 64"
  shows "unat (user_panel_limit n) = unat n * 1000000 div 8"
proof -
  have "unat n * unat (1000000 :: 64 word) < 2 ^ LENGTH(64)" using assms by simp
  then have "unat (n * 1000000) = unat n * unat (1000000 :: 64 word)"
    by (simp only: unat_mult_lem)
  then show ?thesis by (simp add: user_panel_limit_def unat_div)
qed

lemma node_panel_limit_exact:
  assumes "0 \<le> sint n" "sint n * 1000000 < 2 ^ 63"
  shows "uint (node_panel_limit n) = sint n * 1000000 div 8"
proof -
  have "sint (n * 1000000) = signed_take_bit 63 (sint n * sint (1000000 :: 64 word))"
    by (simp add: sint_word_ariths)
  also have "\<dots> = sint n * 1000000"
    using assms by (simp add: signed_take_bit_int_eq_self)
  finally have p: "sint (n * 1000000) = sint n * 1000000" .
  have nn: "0 \<le> sint n * 1000000" using assms by simp
  have s: "(sint n * 1000000) sdiv 8 = sint n * 1000000 div 8"
    using nn by (simp add: signed_divide_int_def sgn_if)
  define v where "v = sint n * 1000000 div 8"
  have "0 \<le> v" "v < 2 ^ 64" using nn assms by (simp_all add: v_def)
  then have "uint (word_of_int v :: 64 word) = v"
    by (simp add: uint_word_of_int)
  moreover have "node_panel_limit n = word_of_int v"
    by (simp only: node_panel_limit_def p s v_def)
  ultimately show ?thesis by (simp only: v_def)
qed


lemma override_limit_rounding_example:
  "override_limit env (Finite False 8646911284551352 (- 55)) = 30000"
  "\<lfloor>f64_val (Finite False 8646911284551352 (- 55)) * 1000000 / 8\<rfloor> = 29999"
proof -
  have b: "bitlen_nat 8646911284551352000000 = 73" "bitlen_nat 8246337208320000 = 53"
    by (simp_all add: bitlen_nat.simps)
  show "override_limit env (Finite False 8646911284551352 (- 55)) = 30000"
    by (simp add: override_limit_def f64_1000000_def f64_round_def f64_pack_def b
          f64_trunc_def Let_def)
  show "\<lfloor>f64_val (Finite False 8646911284551352 (- 55)) * 1000000 / 8\<rfloor> = 29999"
    by (simp add: floor_eq_iff)
qed

lemma scan_loop_Inr:
  "scan_loop fs ls acc = Inr rules \<Longrightarrow>
   length rules = length acc + length ls
   \<and> (\<forall>i < length acc. rules ! i = acc ! i)
   \<and> (\<forall>i < length ls. dr_ID (rules ! (length acc + i)) = - 1
          \<and> compile fs (ls ! i) = Inr (dr_Pattern (rules ! (length acc + i))))"
proof (induction ls arbitrary: acc)
  case Nil
  then show ?case by simp
next
  case (Cons l ls)
  from Cons.prems obtain re where c: "compile fs l = Inr re"
    and r: "scan_loop fs ls (acc @ [\<lparr> dr_ID = - 1, dr_Pattern = re \<rparr>]) = Inr rules"
    by (auto split: sum.splits)
  from Cons.IH [OF r] have len: "length rules = length acc + 1 + length ls"
    and pre: "\<forall>i < length acc + 1. rules ! i = (acc @ [\<lparr> dr_ID = - 1, dr_Pattern = re \<rparr>]) ! i"
    and post: "\<forall>i < length ls. dr_ID (rules ! (length acc + 1 + i)) = - 1
          \<and> compile fs (ls ! i) = Inr (dr_Pattern (rules ! (length acc + 1 + i)))"
    by simp_all
  have "rules ! i = acc ! i" if "i < length acc" for i
    using pre that by (simp add: nth_append)
  moreover have "dr_ID (rules ! (length acc + i)) = - 1
          \<and> compile fs ((l # ls) ! i) = Inr (dr_Pattern (rules ! (length acc + i)))"
    if "i < length (l # ls)" for i
  proof (cases i)
    case 0
    with pre c show ?thesis by (simp add: nth_append)
  next
    case (Suc j)
    with that post show ?thesis by simp
  qed
  ultimately show ?case using len by simp
qed

lemma scan_loop_total:
  "(\<forall>l \<in> set ls. \<exists>re. compile fs l = Inr re) \<Longrightarrow> \<exists>rules. scan_loop fs ls acc = Inr rules"
  by (induction ls arbitrary: acc) auto

lemma scan_loop_Inl:
  "scan_loop fs ls acc = Inl (l, e) \<Longrightarrow> l \<in> set ls \<and> compile fs l = Inl e"
  by (induction ls arbitrary: acc) (auto split: sum.splits)

lemma scan_loop_bad:
  "l \<in> set ls \<Longrightarrow> compile fs l = Inl e \<Longrightarrow> \<exists>l' e'. scan_loop fs ls acc = Inl (l', e')"
proof (induction ls arbitrary: acc)
  case Nil
  then show ?case by simp
next
  case (Cons a ls)
  show ?case
  proof (cases "compile fs a")
    case (Inl x)
    then show ?thesis by simp
  next
    case (Inr re)
    with Cons.prems have "l \<in> set ls" by auto
    from Cons.IH [OF this Cons.prems(2)] Inr show ?thesis by simp
  qed
qed

lemma f64_pack_cases:
  assumes "- 1074 \<le> e"
  shows "f64_pack s m e = Infinity s
         \<or> (\<exists>q E. f64_pack s m e = Finite s q E \<and> q < 2 ^ 53 \<and> - 1074 \<le> E \<and> E \<le> 971)"
  using assms by (auto simp: f64_pack_def Let_def)

lemma f64_round_cases:
  "f64_round s M E = Infinity s
   \<or> (\<exists>q E'. f64_round s M E = Finite s q E' \<and> q < 2 ^ 53 \<and> - 1074 \<le> E' \<and> E' \<le> 971)"
proof (cases "max (int (bitlen_nat M) - 53) (- 1074 - E) \<le> 0")
  case True
  then have "- 1074 \<le> E" by simp
  from f64_pack_cases [OF this, of s M] True show ?thesis
    by (simp add: f64_round_def)
next
  case False
  define sh where "sh = max (int (bitlen_nat M) - 53) (- 1074 - E)"
  have "- 1074 \<le> E + sh" by (simp add: sh_def)
  from f64_pack_cases [OF this] False show ?thesis
    unfolding f64_round_def Let_def sh_def [symmetric] by simp
qed

lemma div8_to_uint64:
  assumes q: "q < 2 ^ 53" and lo: "- 1074 \<le> E" and hi: "E \<le> 971"
    and t: "f64_trunc q (E - 3) < 2 ^ 64"
  shows "f64_to_uint64 oor (f64_div_pow2 (Finite False q E) 3) = of_nat (f64_trunc q (E - 3))"
proof (cases "- 1071 \<le> E")
  case True
  have k0: "bitlen_nat q - 53 = 0" using bitlen_nat_le [OF q] by simp
  have "f64_round False q (E - 3)
          = Finite False (q div 2 ^ (bitlen_nat q - 53)) (E - 3 + int (bitlen_nat q - 53))"
    by (rule f64_round_exact) (use True hi k0 in simp_all)
  then have "f64_div_pow2 (Finite False q E) 3 = Finite False q (E - 3)"
    by (simp add: k0)
  then show ?thesis using t by (simp add: Let_def)
next
  case False
  define sh where "sh = nat (- 1071 - E)"
  from False lo have sh: "0 < sh" "sh \<le> 3" "- 1071 - E = int sh" by (simp_all add: sh_def)
  have b: "int (bitlen_nat q) - 53 \<le> 0" using bitlen_nat_le [OF q] by simp
  have m: "max (int (bitlen_nat q) - 53) (- 1071 - E) = int sh"
    using b sh by simp
  define q1 where "q1 = (if 2 * (q mod 2 ^ sh) > 2 ^ sh \<or> (2 * (q mod 2 ^ sh) = 2 ^ sh \<and> odd (q div 2 ^ sh))
                         then q div 2 ^ sh + 1 else q div 2 ^ sh)"
  have "q div 2 ^ sh \<le> q div 2"
  proof -
    have "(2::nat) ^ 1 \<le> 2 ^ sh" using sh(1) by (intro power_increasing) simp_all
    then show ?thesis using div_le_mono2 [of 2 "2 ^ sh" q] by simp
  qed
  moreover have "q div 2 < 2 ^ 52" using q by simp
  ultimately have q1: "q1 < 2 ^ 53" by (simp add: q1_def)
  have e: "E - 3 + int sh = - 1074" using sh by simp
  have r: "f64_round False q (E - 3) = f64_pack False q1 (- 1074)"
    using sh(1) by (simp add: f64_round_def m Let_def q1_def e)
  have p: "f64_pack False q1 (- 1074) = Finite False q1 (- 1074)"
    using q1 by (simp add: f64_pack_def)
  have "q1 < 2 ^ 1074"
    using q1 power_increasing [of 53 1074 "2::nat"] by simp
  then have z1: "f64_trunc q1 (- 1074) = 0" by (simp add: f64_trunc_def)
  have "q < 2 ^ nat (3 - E)"
  proof -
    have "(2::nat) ^ 53 \<le> 2 ^ nat (3 - E)" using False by (intro power_increasing) simp_all
    with q show ?thesis by simp
  qed
  then have z2: "f64_trunc q (E - 3) = 0" using False by (simp add: f64_trunc_def)
  have "f64_div_pow2 (Finite False q E) 3 = Finite False q1 (- 1074)"
    by (simp add: r p)
  then show ?thesis by (simp add: z1 z2)
qed

lemma f64_val_div8: "f64_val (Finite False q E) / 8 = of_nat q * 2 powi (E - 3)"
  by (simp add: power_int_diff)

lemma override_limit_general:
  assumes m: "0 < m"
    and f: "f64_is_finite (f64_mul (Finite False m e) f64_1000000)"
    and r: "f64_val (f64_mul (Finite False m e) f64_1000000) / 8 < 2 ^ 64"
  shows "uint (override_limit env (Finite False m e))
           = \<lfloor>f64_val (f64_mul (Finite False m e) f64_1000000) / 8\<rfloor>"
proof -
  have y: "f64_mul (Finite False m e) f64_1000000 = f64_round False (m * 1000000) e"
    by (simp add: f64_1000000_def)
  from f64_round_cases [of False "m * 1000000" e] f obtain q E where
    yq: "f64_mul (Finite False m e) f64_1000000 = Finite False q E"
    and q: "q < 2 ^ 53" and lo: "- 1074 \<le> E" and hi: "E \<le> 971"
    unfolding y by auto
  have fl: "\<lfloor>f64_val (Finite False q E) / 8\<rfloor> = int (f64_trunc q (E - 3))"
    by (simp only: f64_val_div8 floor_nat_powi)
  from r have "\<lfloor>f64_val (Finite False q E) / 8\<rfloor> < 2 ^ 64"
    unfolding yq by (simp add: floor_less_iff)
  with fl have t: "f64_trunc q (E - 3) < 2 ^ 64" by simp
  have "override_limit env (Finite False m e)
          = f64_to_uint64 (uint64_out_of_range env) (f64_div_pow2 (Finite False q E) 3)"
    by (simp only: override_limit_def yq)
  also have "\<dots> = of_nat (f64_trunc q (E - 3))"
    using q lo hi t by (rule div8_to_uint64)
  finally have "override_limit env (Finite False m e) = of_nat (f64_trunc q (E - 3))" .
  moreover have "uint (of_nat (f64_trunc q (E - 3)) :: 64 word) = int (f64_trunc q (E - 3))"
    using t by (simp add: uint_nat unat_of_nat)
  ultimately show ?thesis by (simp only: yq fl)
qed

lemma f64_mul_exact:
  assumes m: "0 < m" and e: "- 1074 \<le> e"
    and d: "2 ^ (bitlen_nat (m * 1000000) - 53) dvd m * 1000000"
    and r: "f64_val (Finite False m e) * 1000000 / 8 < 2 ^ 64"
  shows "f64_is_finite (f64_mul (Finite False m e) f64_1000000)
         \<and> f64_val (f64_mul (Finite False m e) f64_1000000) = f64_val (Finite False m e) * 1000000"
proof -
  define M where "M = m * 1000000"
  define k where "k = bitlen_nat M - 53"
  define q where "q = M div 2 ^ k"
  define j where "j = e + int k - 3"
  from d have M: "M = q * 2 ^ k" by (simp add: M_def k_def q_def)
  from m have "0 < M" by (simp add: M_def)
  with M have q: "0 < q" by (cases q) simp_all
  have "f64_val (Finite False m e) * 1000000 / 8 = of_nat M * 2 powi e / 2 powi 3"
    by (simp add: M_def)
  also have "\<dots> = of_nat q * (2 ^ k * 2 powi e / 2 powi 3)"
    by (simp add: M)
  also have "2 ^ k * (2::rat) powi e / 2 powi 3 = 2 powi j"
    unfolding j_def by (simp add: power_int_add power_int_diff)
  finally have val: "f64_val (Finite False m e) * 1000000 / 8 = of_nat q * 2 powi j" .
  have j64: "j < 64"
  proof (rule ccontr)
    assume "\<not> j < 64"
    then have "(2::rat) powi 64 \<le> 2 powi j" by (intro power_int_increasing) simp_all
    also have "\<dots> \<le> of_nat q * 2 powi j"
    proof -
      have "(0::rat) \<le> 2 powi j" by (simp add: power_int_def)
      moreover have "(1::rat) \<le> of_nat q" using q by simp
      ultimately show ?thesis using mult_right_mono [of 1 "of_nat q :: rat" "2 powi j"] by simp
    qed
    finally show False using r val by simp
  qed
  then have hi: "e + int k \<le> 971" by (simp add: j_def)
  have "f64_mul (Finite False m e) f64_1000000 = f64_round False M e"
    by (simp add: f64_1000000_def M_def)
  also have "\<dots> = Finite False q (e + int k)"
    unfolding q_def k_def
    by (rule f64_round_exact) (use d e hi in \<open>simp_all add: M_def k_def\<close>)
  finally have mul: "f64_mul (Finite False m e) f64_1000000 = Finite False q (e + int k)" .
  have "f64_val (Finite False q (e + int k)) = of_nat q * (2 ^ k * 2 powi e)"
    by (simp add: power_int_add)
  also have "\<dots> = of_nat M * 2 powi e" by (simp add: M)
  also have "\<dots> = f64_val (Finite False m e) * 1000000" by (simp add: M_def)
  finally show ?thesis by (simp add: mul)
qed

lemma user_panel_limit_wraps:
  assumes "2 ^ 64 \<le> unat n * 1000000"
  shows "unat (user_panel_limit n) < unat n * 1000000 div 8"
proof -
  have "unat (n * 1000000) < 2 ^ 64" using unsigned_less [of "n * 1000000"] by simp
  then have "unat (n * 1000000) div 8 < 2 ^ 61" by simp
  moreover have "(2::nat) ^ 61 \<le> unat n * 1000000 div 8" using assms by simp
  ultimately show ?thesis by (simp add: user_panel_limit_def unat_div)
qed

lemma bitlen_nat_tenth: "bitlen_nat 7205759403792794000000 = 73"
  by (simp add: bitlen_nat.simps)

lemma f64_mul_tenth:
  "f64_mul (Finite False 7205759403792794 (- 56)) f64_1000000
     = Finite False 6871947673600000 (- 36)"
  by (simp add: f64_1000000_def f64_round_def f64_pack_def bitlen_nat_tenth Let_def)

section \<open>Claims\<close>

text \<open>
  C1. Which value decides a limit. \<open>parseNodeInfo\<close> returns a node info whose speed limit
  is the converted override of the client when that override is greater than zero,
  whatever the panel sent, and the converted panel value when it is not (zero, negative
  or NaN). When \<open>GetUserList\<close> returns records for the decoded panel list, there is one
  record per panel user, in order: its speed limit is the converted override when that is
  greater than zero and the converted limit of the panel user otherwise; its device limit
  is the client's device limit when that is greater than zero and the panel user's device
  limit, unchanged, otherwise.
\<close>

theorem C1_override_precedence:
  "(\<exists>ni. parseNodeInfo env c nir = Inr ni
       \<and> ni_SpeedLimit ni =
            (if f64_gt0 (c_SpeedLimit c) then override_limit env (c_SpeedLimit c)
             else node_panel_limit (nir_NodeSpeedLimit nir)))
   \<and> (fst (GetUserList env c net) = Inr us
        \<and> post env (users_request c) net = (Inr res, net1)
        \<and> unmarshalUserList env (r_Data (res_Result res)) = Inr ulr \<longrightarrow>
      length us = length (ulr_List ulr)
      \<and> (\<forall>i < length us.
            ui_SpeedLimit (us ! i) =
              (if f64_gt0 (c_SpeedLimit c) then override_limit env (c_SpeedLimit c)
               else user_panel_limit (uli_SpeedLimit (ulr_List ulr ! i)))
            \<and> ui_DeviceLimit (us ! i) =
              (if 0 < sint (c_DeviceLimit c) then c_DeviceLimit c
               else uli_DeviceLimit (ulr_List ulr ! i))))"
proof (intro conjI impI)
  show "\<exists>ni. parseNodeInfo env c nir = Inr ni
       \<and> ni_SpeedLimit ni =
            (if f64_gt0 (c_SpeedLimit c) then override_limit env (c_SpeedLimit c)
             else node_panel_limit (nir_NodeSpeedLimit nir))"
    by (simp add: parseNodeInfo_def)
next
  assume a: "fst (GetUserList env c net) = Inr us
        \<and> post env (users_request c) net = (Inr res, net1)
        \<and> unmarshalUserList env (r_Data (res_Result res)) = Inr ulr"
  then have g: "fst (GetUserList env c net) = Inr us" by simp
  from g obtain res2 :: http_response and ulr2 :: UserListResponse and net2 where
    p: "post env (users_request c) net = (Inr res2, net2)"
    and d: "unmarshalUserList env (r_Data (res_Result res2)) = Inr ulr2"
    and us: "us = map (userInfo env (update_eTag c ''users'' res2 ''Etag'')) (ulr_List ulr2)"
    by (rule GetUserList_Inr)
  from p a have "res2 = res" by simp
  with d a have "ulr2 = ulr" by simp
  with us show "length us = length (ulr_List ulr)"
    and "\<forall>i < length us.
            ui_SpeedLimit (us ! i) =
              (if f64_gt0 (c_SpeedLimit c) then override_limit env (c_SpeedLimit c)
               else user_panel_limit (uli_SpeedLimit (ulr_List ulr ! i)))
            \<and> ui_DeviceLimit (us ! i) =
              (if 0 < sint (c_DeviceLimit c) then c_DeviceLimit c
               else uli_DeviceLimit (ulr_List ulr ! i))"
    by (simp_all add: userInfo_def)
qed

theorem C1_override_precedence_witness:
  "(\<exists>us ni. fst (GetUserList (test_env (\<lambda>r. Inr (test_response 200 ''v1'' 0 ''data'')))
                  override_client []) = Inr us
        \<and> map ui_SpeedLimit us = [187500, 187500] \<and> map ui_DeviceLimit us = [5, 5]
        \<and> parseNodeInfo (test_env (\<lambda>r. Inr (test_response 200 ''v1'' 0 ''data'')))
              override_client test_node = Inr ni
        \<and> ni_SpeedLimit ni = 187500)
   \<and> (\<exists>us ni. fst (GetUserList (test_env (\<lambda>r. Inr (test_response 200 ''v1'' 0 ''data'')))
                  (test_client ''V2ray'') []) = Inr us
        \<and> map ui_SpeedLimit us = [1250000, 0] \<and> map ui_DeviceLimit us = [2, 0]
        \<and> parseNodeInfo (test_env (\<lambda>r. Inr (test_response 200 ''v1'' 0 ''data'')))
              (test_client ''V2ray'') test_node = Inr ni
        \<and> ni_SpeedLimit ni = 12500000)"
proof -
  let ?E = "test_env (\<lambda>r. Inr (test_response 200 ''v1'' 0 ''data''))"
  let ?R = "test_response 200 ''v1'' 0 ''data''"
  let ?U = "\<lparr> ulr_List = test_users \<rparr>"
  have two: "(\<forall>i < 2. P i) \<longleftrightarrow> P 0 \<and> P (Suc 0)" for P :: "nat \<Rightarrow> bool"
    by (auto simp: less_Suc_eq numeral_2_eq_2)
  have p: "post ?E q [] = (Inr ?R, [q])" for q
    by (simp add: test_env_def spy_def)
  have d: "unmarshalUserList ?E (r_Data (res_Result ?R)) = Inr ?U"
    by (simp add: test_env_def test_response_def)
  have o: "c_NodeType override_client \<in> set supported_node_types"
    "f64_gt0 (c_SpeedLimit override_client)" "c_SpeedLimit override_client = Finite False 3 (- 1)"
    "c_DeviceLimit override_client = 5"
    by (simp_all add: override_client_def test_client_def supported_node_types_def)
  have t: "c_NodeType (test_client ''V2ray'') \<in> set supported_node_types"
    "\<not> f64_gt0 (c_SpeedLimit (test_client ''V2ray''))"
    "c_DeviceLimit (test_client ''V2ray'') = 0"
    by (simp_all add: test_client_def supported_node_types_def)
  have l: "length test_users = 2" "map uli_SpeedLimit test_users = [10, 0]"
    "map uli_DeviceLimit test_users = [2, 0]" "nir_NodeSpeedLimit test_node = 100"
    by (simp_all add: test_users_def test_node_def)
  have n: "user_panel_limit 10 = 1250000" "user_panel_limit 0 = 0" "node_panel_limit 100 = 12500000"
    by (simp_all add: user_panel_limit_def node_panel_limit_def)
  obtain us1 where g1: "fst (GetUserList ?E override_client []) = Inr us1"
    using test_GetUserList_any [OF o(1)] by blast
  obtain us2 where g2: "fst (GetUserList ?E (test_client ''V2ray'') []) = Inr us2"
    using test_GetUserList_any [OF t(1)] by blast
  from C1_override_precedence
         [where env = ?E and c = override_client and nir = test_node and net = "[]" and us = us1
            and res = ?R and ?net1.0 = "[users_request override_client]" and ulr = ?U]
       g1 p d o l
  have a: "\<exists>ni. map ui_SpeedLimit us1 = [187500, 187500] \<and> map ui_DeviceLimit us1 = [5, 5]
         \<and> parseNodeInfo ?E override_client test_node = Inr ni \<and> ni_SpeedLimit ni = 187500"
    by (auto simp: override_limit_example two list_eq_iff_nth_eq)
  from C1_override_precedence
         [where env = ?E and c = "test_client ''V2ray''" and nir = test_node and net = "[]"
            and us = us2 and res = ?R and ?net1.0 = "[users_request (test_client ''V2ray'')]"
            and ulr = ?U]
       g2 p d t l n
  have b: "\<exists>ni. map ui_SpeedLimit us2 = [1250000, 0] \<and> map ui_DeviceLimit us2 = [2, 0]
         \<and> parseNodeInfo ?E (test_client ''V2ray'') test_node = Inr ni \<and> ni_SpeedLimit ni = 12500000"
    by (auto simp: two list_eq_iff_nth_eq)
  from a b g1 g2 show ?thesis by auto
qed

text \<open>
  C2 (amended). With no positive override, the per-user conversion is the floor of
  \<open>mbps * 1000000 / 8\<close> exactly when \<open>mbps * 1000000 < 2^64\<close>, and the node-info
  conversion is that floor when the panel value is not negative and
  \<open>mbps * 1000000 < 2^63\<close>. With a positive finite override whose float64 product by
  1000000, \<open>y\<close>, is finite with \<open>y / 8 < 2^64\<close>, both normalizers return the floor of
  \<open>y / 8\<close>; that is the floor of \<open>mbps * 1000000 / 8\<close>, taken of the exact value of the
  override, exactly when the two floors are equal (as for 0.1, which gives 12500). They
  are equal in particular when the exponent of the override is at least -1074, as for
  every float64, the product needs no rounding (it fits 53 significant bits) and
  \<open>mbps * 1000000 / 8 < 2^64\<close>: an override of 1.5 gives 187500.
\<close>

theorem C2_conversion:
  "(\<not> f64_gt0 (c_SpeedLimit c) \<longrightarrow>
      (int (unat (ui_SpeedLimit (userInfo env c u)))
         = \<lfloor>(of_nat (unat (uli_SpeedLimit u)) :: rat) * 1000000 / 8\<rfloor>)
      = (unat (uli_SpeedLimit u) * 1000000 < 2 ^ 64))
   \<and> (\<not> f64_gt0 (c_SpeedLimit c) \<and> 0 \<le> sint (nir_NodeSpeedLimit r)
        \<and> sint (nir_NodeSpeedLimit r) * 1000000 < 2 ^ 63 \<longrightarrow>
      (\<exists>ni. parseNodeInfo env c r = Inr ni
         \<and> uint (ni_SpeedLimit ni)
             = \<lfloor>(of_int (sint (nir_NodeSpeedLimit r)) :: rat) * 1000000 / 8\<rfloor>))
   \<and> (c_SpeedLimit c = Finite False m e \<and> 0 < m
        \<and> f64_is_finite (f64_mul (c_SpeedLimit c) f64_1000000)
        \<and> f64_val (f64_mul (c_SpeedLimit c) f64_1000000) / 8 < 2 ^ 64 \<longrightarrow>
      uint (ui_SpeedLimit (userInfo env c u))
        = \<lfloor>f64_val (f64_mul (c_SpeedLimit c) f64_1000000) / 8\<rfloor>
      \<and> (\<exists>ni. parseNodeInfo env c r = Inr ni
            \<and> uint (ni_SpeedLimit ni) = uint (ui_SpeedLimit (userInfo env c u)))
      \<and> ((uint (ui_SpeedLimit (userInfo env c u)) = \<lfloor>f64_val (c_SpeedLimit c) * 1000000 / 8\<rfloor>)
           = (\<lfloor>f64_val (f64_mul (c_SpeedLimit c) f64_1000000) / 8\<rfloor>
                = \<lfloor>f64_val (c_SpeedLimit c) * 1000000 / 8\<rfloor>)))
   \<and> (c_SpeedLimit c = Finite False m e \<and> 0 < m \<and> - 1074 \<le> e
        \<and> 2 ^ (bitlen_nat (m * 1000000) - 53) dvd m * 1000000
        \<and> f64_val (c_SpeedLimit c) * 1000000 / 8 < 2 ^ 64 \<longrightarrow>
      uint (ui_SpeedLimit (userInfo env c u)) = \<lfloor>f64_val (c_SpeedLimit c) * 1000000 / 8\<rfloor>
      \<and> (\<exists>ni. parseNodeInfo env c r = Inr ni
            \<and> uint (ni_SpeedLimit ni) = \<lfloor>f64_val (c_SpeedLimit c) * 1000000 / 8\<rfloor>))"
proof (intro conjI impI)
  assume a: "\<not> f64_gt0 (c_SpeedLimit c)"
  let ?P = "unat (uli_SpeedLimit u) * 1000000"
  have "(of_nat (unat (uli_SpeedLimit u)) :: rat) * 1000000 / 8 = of_nat ?P / of_nat 8"
    by simp
  then have fl: "\<lfloor>(of_nat (unat (uli_SpeedLimit u)) :: rat) * 1000000 / 8\<rfloor> = int (?P div 8)"
    by (simp only: floor_divide_of_nat_eq)
  have res: "ui_SpeedLimit (userInfo env c u) = user_panel_limit (uli_SpeedLimit u)"
    using a by (simp add: userInfo_def)
  show "(int (unat (ui_SpeedLimit (userInfo env c u)))
         = \<lfloor>(of_nat (unat (uli_SpeedLimit u)) :: rat) * 1000000 / 8\<rfloor>)
      = (?P < 2 ^ 64)"
  proof (cases "?P < 2 ^ 64")
    case True
    from user_panel_limit_exact [OF True] True show ?thesis
      by (simp only: res fl) simp
  next
    case False
    then have "2 ^ 64 \<le> ?P" by simp
    from user_panel_limit_wraps [OF this]
    have "unat (user_panel_limit (uli_SpeedLimit u)) \<noteq> ?P div 8" by linarith
    then have ne: "int (unat (user_panel_limit (uli_SpeedLimit u))) \<noteq> int (?P div 8)"
      by (simp only: of_nat_eq_iff not_False_eq_True)
    show ?thesis
      unfolding res fl
    proof
      assume "int (unat (user_panel_limit (uli_SpeedLimit u))) = int (?P div 8)"
      with ne show "?P < 2 ^ 64" by (rule notE)
    next
      assume "?P < 2 ^ 64"
      with False show "int (unat (user_panel_limit (uli_SpeedLimit u))) = int (?P div 8)"
        by (rule notE)
    qed
  qed
next
  assume a: "\<not> f64_gt0 (c_SpeedLimit c) \<and> 0 \<le> sint (nir_NodeSpeedLimit r)
        \<and> sint (nir_NodeSpeedLimit r) * 1000000 < 2 ^ 63"
  have "(of_int (sint (nir_NodeSpeedLimit r)) :: rat) * 1000000 / 8
          = of_int (sint (nir_NodeSpeedLimit r) * 1000000) / of_int 8"
    by simp
  then have "\<lfloor>(of_int (sint (nir_NodeSpeedLimit r)) :: rat) * 1000000 / 8\<rfloor>
          = sint (nir_NodeSpeedLimit r) * 1000000 div 8"
    by (simp only: floor_divide_of_int_eq)
  with a node_panel_limit_exact [of "nir_NodeSpeedLimit r"]
  show "\<exists>ni. parseNodeInfo env c r = Inr ni
         \<and> uint (ni_SpeedLimit ni)
             = \<lfloor>(of_int (sint (nir_NodeSpeedLimit r)) :: rat) * 1000000 / 8\<rfloor>"
    by (simp add: parseNodeInfo_def)
next
  assume a: "c_SpeedLimit c = Finite False m e \<and> 0 < m
        \<and> f64_is_finite (f64_mul (c_SpeedLimit c) f64_1000000)
        \<and> f64_val (f64_mul (c_SpeedLimit c) f64_1000000) / 8 < 2 ^ 64"
  then have eq: "c_SpeedLimit c = Finite False m e" and m: "0 < m"
    and f: "f64_is_finite (f64_mul (c_SpeedLimit c) f64_1000000)"
    and v: "f64_val (f64_mul (c_SpeedLimit c) f64_1000000) / 8 < 2 ^ 64"
    by blast+
  have x: "uint (override_limit env (Finite False m e))
             = \<lfloor>f64_val (f64_mul (Finite False m e) f64_1000000) / 8\<rfloor>"
    using m f [unfolded eq] v [unfolded eq] by (rule override_limit_general)
  have g: "f64_gt0 (c_SpeedLimit c)" using eq m by simp
  have u: "ui_SpeedLimit (userInfo env c u) = override_limit env (Finite False m e)"
    using g by (simp add: userInfo_def eq)
  show 1: "uint (ui_SpeedLimit (userInfo env c u))
        = \<lfloor>f64_val (f64_mul (c_SpeedLimit c) f64_1000000) / 8\<rfloor>"
    by (simp only: u x eq)
  show "\<exists>ni. parseNodeInfo env c r = Inr ni
            \<and> uint (ni_SpeedLimit ni) = uint (ui_SpeedLimit (userInfo env c u))"
    using g by (simp add: parseNodeInfo_def u eq)
  show "(uint (ui_SpeedLimit (userInfo env c u)) = \<lfloor>f64_val (c_SpeedLimit c) * 1000000 / 8\<rfloor>)
           = (\<lfloor>f64_val (f64_mul (c_SpeedLimit c) f64_1000000) / 8\<rfloor>
                = \<lfloor>f64_val (c_SpeedLimit c) * 1000000 / 8\<rfloor>)"
    by (simp only: 1)
next
  assume a: "c_SpeedLimit c = Finite False m e \<and> 0 < m \<and> - 1074 \<le> e
        \<and> 2 ^ (bitlen_nat (m * 1000000) - 53) dvd m * 1000000
        \<and> f64_val (c_SpeedLimit c) * 1000000 / 8 < 2 ^ 64"
  then have eq: "c_SpeedLimit c = Finite False m e" and m: "0 < m" and e: "- 1074 \<le> e"
    and d: "2 ^ (bitlen_nat (m * 1000000) - 53) dvd m * 1000000"
    and v: "f64_val (c_SpeedLimit c) * 1000000 / 8 < 2 ^ 64"
    by blast+
  from f64_mul_exact [OF m e d v [unfolded eq]]
  have f: "f64_is_finite (f64_mul (Finite False m e) f64_1000000)"
    and y: "f64_val (f64_mul (Finite False m e) f64_1000000) = f64_val (Finite False m e) * 1000000"
    by blast+
  have "f64_val (f64_mul (Finite False m e) f64_1000000) / 8 < 2 ^ 64"
    using v [unfolded eq] by (simp only: y)
  with m f have "uint (override_limit env (Finite False m e))
             = \<lfloor>f64_val (f64_mul (Finite False m e) f64_1000000) / 8\<rfloor>"
    by (rule override_limit_general)
  then have x: "uint (override_limit env (Finite False m e))
             = \<lfloor>f64_val (Finite False m e) * 1000000 / 8\<rfloor>"
    by (simp only: y)
  have g: "f64_gt0 (c_SpeedLimit c)" using eq m by simp
  from x g
  show "uint (ui_SpeedLimit (userInfo env c u)) = \<lfloor>f64_val (c_SpeedLimit c) * 1000000 / 8\<rfloor>"
    by (simp add: userInfo_def eq)
  from x g
  show "\<exists>ni. parseNodeInfo env c r = Inr ni
            \<and> uint (ni_SpeedLimit ni) = \<lfloor>f64_val (c_SpeedLimit c) * 1000000 / 8\<rfloor>"
    by (simp add: parseNodeInfo_def eq)
qed


theorem C2_conversion_witness:
  "int (unat (ui_SpeedLimit (userInfo (test_env (\<lambda>r. Inl ''down'')) (test_client ''V2ray'')
           (hd test_users)))) = 1250000
   \<and> int (unat (ui_SpeedLimit (userInfo (test_env (\<lambda>r. Inl ''down'')) (test_client ''V2ray'')
           big_user))) \<noteq> 2305843009213750000
   \<and> (\<exists>ni. parseNodeInfo (test_env (\<lambda>r. Inl ''down'')) (test_client ''V2ray'') test_node = Inr ni
          \<and> uint (ni_SpeedLimit ni) = 12500000)
   \<and> c_SpeedLimit tenth_client = Finite False 7205759403792794 (- 56)
   \<and> \<lfloor>f64_val (c_SpeedLimit tenth_client) * 1000000 / 8\<rfloor> = 12500
   \<and> uint (ui_SpeedLimit (userInfo (test_env (\<lambda>r. Inl ''down'')) tenth_client
           (hd test_users))) = 12500
   \<and> c_SpeedLimit override_client = Finite False 3 (- 1)
   \<and> f64_val (c_SpeedLimit override_client) = 3 / 2
   \<and> uint (ui_SpeedLimit (userInfo (test_env (\<lambda>r. Inl ''down'')) override_client
           (hd test_users))) = 187500
   \<and> (\<exists>ni. parseNodeInfo (test_env (\<lambda>r. Inl ''down'')) override_client test_node = Inr ni
          \<and> uint (ni_SpeedLimit ni) = 187500)"
proof -
  let ?E = "test_env (\<lambda>r. Inl ''down'')"
  have t: "\<not> f64_gt0 (c_SpeedLimit (test_client ''V2ray''))"
    by (simp add: test_client_def)
  have u: "uli_SpeedLimit (hd test_users) = 10" "nir_NodeSpeedLimit test_node = 100"
    "uli_SpeedLimit big_user = 18446744073710"
    by (simp_all add: test_users_def test_node_def big_user_def)
  have o: "c_SpeedLimit override_client = Finite False 3 (- 1)"
    by (simp add: override_client_def)
  have d: "2 ^ (bitlen_nat (3 * 1000000) - 53) dvd (3::nat) * 1000000"
    by (simp add: bitlen_nat_3000000)
  have h: "c_SpeedLimit tenth_client = Finite False 7205759403792794 (- 56)"
    by (simp add: tenth_client_def)
  have y: "f64_is_finite (f64_mul (Finite False 7205759403792794 (- 56)) f64_1000000)"
    "f64_val (f64_mul (Finite False 7205759403792794 (- 56)) f64_1000000) / 8 = 12500"
    by (simp_all add: f64_mul_tenth)
  have p: "\<lfloor>f64_val (Finite False 7205759403792794 (- 56)) * 1000000 / 8\<rfloor> = 12500"
    by (simp add: floor_eq_iff)
  from C2_conversion [of "test_client ''V2ray''" ?E "hd test_users" test_node 3 "- 1"] t u
  have a: "int (unat (ui_SpeedLimit (userInfo ?E (test_client ''V2ray'') (hd test_users)))) = 1250000
      \<and> (\<exists>ni. parseNodeInfo ?E (test_client ''V2ray'') test_node = Inr ni
             \<and> uint (ni_SpeedLimit ni) = 12500000)"
    by simp
  from C2_conversion [of "test_client ''V2ray''" ?E big_user test_node 3 "- 1"] t u
  have b: "int (unat (ui_SpeedLimit (userInfo ?E (test_client ''V2ray'') big_user)))
             \<noteq> 2305843009213750000"
    by simp
  from C2_conversion [of tenth_client ?E "hd test_users" test_node 7205759403792794 "- 56"] h y p
  have c: "uint (ui_SpeedLimit (userInfo ?E tenth_client (hd test_users))) = 12500"
    by simp
  from C2_conversion [of override_client ?E "hd test_users" test_node 3 "- 1"] o d
  have e: "uint (ui_SpeedLimit (userInfo ?E override_client (hd test_users))) = 187500
      \<and> (\<exists>ni. parseNodeInfo ?E override_client test_node = Inr ni
             \<and> uint (ni_SpeedLimit ni) = 187500)"
    by simp
  from a b c e o h p show ?thesis by simp
qed

text \<open>
  C2 as stated fails: the integer conversions are computed in 64-bit arithmetic, and a
  per-user limit of 18446744073710 Mbps, whose product with 1000000 exceeds \<open>2^64\<close>, is
  converted to 56048 and not to the floor 2305843009213750000.
\<close>

theorem C2_conversion_counterexample:
  "unat (ui_SpeedLimit (userInfo (test_env (\<lambda>r. Inl ''down'')) (test_client ''V2ray'') big_user))
     = 56048
   \<and> \<lfloor>(of_nat (unat (uli_SpeedLimit big_user)) :: rat) * 1000000 / 8\<rfloor> = 2305843009213750000"
  by (simp add: userInfo_def test_client_def big_user_def user_panel_limit_def)

text \<open>
  C3 (amended). For \<open>GetNodeInfo\<close> with resource node, and for \<open>GetUserList\<close> with
  resource users when the node type is supported: the request posted carries the stored
  token as \<open>If-None-Match\<close>; afterwards the token of the resource is \<open>token_after\<close> of
  the old one and the transport's answer, and it is what the next request carries; no
  other resource's token changes; and the map of tokens changes only when the transport
  returned a response that is not a 304 and whose \<open>Etag\<close> header is non-empty and differs
  from the stored token, which it then replaces, whatever the status and the envelope of
  that response are. For an unsupported node type \<open>GetUserList\<close> leaves the client and
  the network as they were.
\<close>

theorem C3_token_store:
  assumes n: "GetNodeInfo env c net = (r, c1, net1)"
    and u: "GetUserList env c net = (r', c2, net2)"
  shows
    "net1 = snd (post env (node_request c) net)
     \<and> req_if_none_match (node_request c) = eTag c ''node''
     \<and> eTag c1 ''node'' = token_after (eTag c ''node'') (fst (post env (node_request c) net))
     \<and> req_if_none_match (node_request c1) = eTag c1 ''node''
     \<and> (\<forall>k. k \<noteq> ''node'' \<longrightarrow> c_eTags c1 k = c_eTags c k)
     \<and> (c_eTags c1 \<noteq> c_eTags c \<longrightarrow>
          (\<exists>res. fst (post env (node_request c) net) = Inr res \<and> res_StatusCode res \<noteq> 304
             \<and> header_Get res ''Etag'' \<noteq> [] \<and> header_Get res ''Etag'' \<noteq> eTag c ''node''
             \<and> c_eTags c1 = (c_eTags c)(''node'' \<mapsto> header_Get res ''Etag'')))
     \<and> (c_NodeType c \<notin> {''V2ray'', ''Trojan'', ''Shadowsocks'', ''Vmess'', ''Vless''} \<longrightarrow>
          c2 = c \<and> net2 = net)
     \<and> (c_NodeType c \<in> {''V2ray'', ''Trojan'', ''Shadowsocks'', ''Vmess'', ''Vless''} \<longrightarrow>
          net2 = snd (post env (users_request c) net)
          \<and> req_if_none_match (users_request c) = eTag c ''users''
          \<and> eTag c2 ''users''
              = token_after (eTag c ''users'') (fst (post env (users_request c) net))
          \<and> req_if_none_match (users_request c2) = eTag c2 ''users''
          \<and> (\<forall>k. k \<noteq> ''users'' \<longrightarrow> c_eTags c2 k = c_eTags c k)
          \<and> (c_eTags c2 \<noteq> c_eTags c \<longrightarrow>
               (\<exists>res. fst (post env (users_request c) net) = Inr res
                  \<and> res_StatusCode res \<noteq> 304
                  \<and> header_Get res ''Etag'' \<noteq> [] \<and> header_Get res ''Etag'' \<noteq> eTag c ''users''
                  \<and> c_eTags c2 = (c_eTags c)(''users'' \<mapsto> header_Get res ''Etag''))))"
proof -
  have c1: "c1 = (case fst (post env (node_request c) net) of
                    Inl e \<Rightarrow> c
                  | Inr res \<Rightarrow> if res_StatusCode res = 304 then c
                               else update_eTag c ''node'' res ''ETag'')"
    and n1: "net1 = snd (post env (node_request c) net)"
    using n by (auto simp: GetNodeInfo_def Let_def split: prod.splits sum.splits if_splits)
  have node: "eTag c1 ''node'' = token_after (eTag c ''node'') (fst (post env (node_request c) net))"
    "\<forall>k. k \<noteq> ''node'' \<longrightarrow> c_eTags c1 k = c_eTags c k"
    "c_eTags c1 \<noteq> c_eTags c \<longrightarrow>
          (\<exists>res. fst (post env (node_request c) net) = Inr res \<and> res_StatusCode res \<noteq> 304
             \<and> header_Get res ''Etag'' \<noteq> [] \<and> header_Get res ''Etag'' \<noteq> eTag c ''node''
             \<and> c_eTags c1 = (c_eTags c)(''node'' \<mapsto> header_Get res ''Etag''))"
    unfolding c1
    by (auto simp: token_after_def update_eTag_def eTag_def header_Get_ETag split: sum.splits)
  have unsupported: "c2 = c \<and> net2 = net"
    if "c_NodeType c \<notin> {''V2ray'', ''Trojan'', ''Shadowsocks'', ''Vmess'', ''Vless''}"
    using u that by (simp add: GetUserList_def supported_node_types_def)
  have users: "net2 = snd (post env (users_request c) net)
          \<and> eTag c2 ''users''
              = token_after (eTag c ''users'') (fst (post env (users_request c) net))
          \<and> (\<forall>k. k \<noteq> ''users'' \<longrightarrow> c_eTags c2 k = c_eTags c k)
          \<and> (c_eTags c2 \<noteq> c_eTags c \<longrightarrow>
               (\<exists>res. fst (post env (users_request c) net) = Inr res
                  \<and> res_StatusCode res \<noteq> 304
                  \<and> header_Get res ''Etag'' \<noteq> [] \<and> header_Get res ''Etag'' \<noteq> eTag c ''users''
                  \<and> c_eTags c2 = (c_eTags c)(''users'' \<mapsto> header_Get res ''Etag'')))"
    if t: "c_NodeType c \<in> {''V2ray'', ''Trojan'', ''Shadowsocks'', ''Vmess'', ''Vless''}"
  proof -
    have c2: "c2 = (case fst (post env (users_request c) net) of
                      Inl e \<Rightarrow> c
                    | Inr res \<Rightarrow> if res_StatusCode res = 304 then c
                                 else update_eTag c ''users'' res ''Etag'')"
      and n2: "net2 = snd (post env (users_request c) net)"
      using u t
      by (auto simp: GetUserList_def supported_node_types_def Let_def
               split: prod.splits sum.splits if_splits)
    show ?thesis
      unfolding c2 n2
      by (auto simp: token_after_def update_eTag_def eTag_def split: sum.splits)
  qed
  show ?thesis
    using n1 node unsupported users by (simp add: node_request_def users_request_def)
qed

theorem C3_token_store_witness:
  "eTag (fst (snd (GetNodeInfo (test_env (\<lambda>r. Inr (test_response 200 ''v1'' 0 ''data'')))
                    (test_client ''Vless'') []))) ''node'' = ''v1''
   \<and> req_if_none_match (node_request (fst (snd (GetNodeInfo
         (test_env (\<lambda>r. Inr (test_response 200 ''v1'' 0 ''data''))) (test_client ''Vless'') []))))
       = ''v1''
   \<and> eTag (fst (snd (GetUserList (test_env (\<lambda>r. Inr (test_response 200 ''v1'' 0 ''data'')))
                    (test_client ''Vless'') []))) ''users'' = ''v1''
   \<and> snd (snd (GetUserList (test_env (\<lambda>r. Inr (test_response 200 ''v1'' 0 ''data'')))
                    (test_client ''Vless'') []))
       = [\<lparr> req_path = ''/api/public/xrayr/user/list'', req_node_id = 4, req_if_none_match = [] \<rparr>]"
proof -
  let ?E = "test_env (\<lambda>r. Inr (test_response 200 ''v1'' 0 ''data''))"
  let ?C = "test_client ''Vless''"
  have t: "c_NodeType ?C = ''Vless''"
    by (simp add: test_client_def)
  have h: "header_Get (test_response 200 ''v1'' 0 ''data'') ''Etag'' = ''v1''"
    by (simp add: header_Get_def canonical_ETag test_response_def)
  have s: "res_StatusCode (test_response 200 ''v1'' 0 ''data'') = 200"
    by (simp add: test_response_def)
  have e: "eTag ?C k = []" for k
    by (simp add: eTag_def test_client_def)
  have i: "c_NodeID ?C = 4"
    by (simp add: test_client_def)
  have p: "post ?E q [] = (Inr (test_response 200 ''v1'' 0 ''data''), [q])" for q
    by (simp add: test_env_def spy_def)
  have n: "GetNodeInfo ?E ?C [] = (fst (GetNodeInfo ?E ?C []),
             fst (snd (GetNodeInfo ?E ?C [])), snd (snd (GetNodeInfo ?E ?C [])))"
    by simp
  have u: "GetUserList ?E ?C [] = (fst (GetUserList ?E ?C []),
             fst (snd (GetUserList ?E ?C [])), snd (snd (GetUserList ?E ?C [])))"
    by simp
  from C3_token_store [OF n u]
  show ?thesis
    by (simp add: p token_after_def h s e i t users_request_def node_request_def)
qed

text \<open>
  C3 as stated fails: the token is stored before the response is parsed, so a response
  that is a failure (status 500) and carries a token changes the stored token, while
  \<open>GetNodeInfo\<close> returns the error of the failed request.
\<close>

theorem C3_token_store_counterexample:
  "fst (GetNodeInfo (test_env (\<lambda>r. Inr (test_response 500 ''v2'' 0 ''data'')))
          (test_client ''V2ray'') [])
     = Inl (RemoteFailure ''http://127.0.0.1:3000/api/public/xrayr/node/info'' ''body'' None)
   \<and> eTag (test_client ''V2ray'') ''node'' = []
   \<and> eTag (fst (snd (GetNodeInfo (test_env (\<lambda>r. Inr (test_response 500 ''v2'' 0 ''data'')))
          (test_client ''V2ray'') []))) ''node'' = ''v2''"
  by (simp add: GetNodeInfo_def parseResponse_def test_env_def spy_def test_response_def
        test_client_def update_eTag_def eTag_def header_Get_def canonical_ETag assembleURL_def)

text \<open>
  C4. For a client whose node type is none of V2ray, Trojan, Shadowsocks, Vmess and Vless,
  \<open>GetUserList\<close> returns the unsupported-node-type error with the client and the network
  untouched, whatever the transport is: no request is issued. For each of the five values
  the check passes: the network is in the state the transport's \<open>Post\<close> of the
  user-list request leaves, and the result is not that error.
\<close>

theorem C4_unsupported_node_type:
  "(c_NodeType c \<notin> {''V2ray'', ''Trojan'', ''Shadowsocks'', ''Vmess'', ''Vless''} \<longrightarrow>
      GetUserList env c net = (Inl (UnsupportedNodeType (c_NodeType c)), c, net))
   \<and> (c_NodeType c \<in> {''V2ray'', ''Trojan'', ''Shadowsocks'', ''Vmess'', ''Vless''} \<longrightarrow>
      snd (snd (GetUserList env c net)) = snd (post env (users_request c) net)
      \<and> (\<forall>t. fst (GetUserList env c net) \<noteq> Inl (UnsupportedNodeType t)))"
  by (auto simp: GetUserList_def parseResponse_def supported_node_types_def Let_def
           split: prod.splits sum.splits)

theorem C4_unsupported_node_type_witness:
  "GetUserList (test_env (\<lambda>r. Inr (test_response 200 ''v1'' 0 ''data''))) (test_client ''Foo'') []
     = (Inl (UnsupportedNodeType ''Foo''), test_client ''Foo'', [])
   \<and> snd (snd (GetUserList (test_env (\<lambda>r. Inr (test_response 200 ''v1'' 0 ''data'')))
          (test_client ''Vless'') []))
     = [\<lparr> req_path = ''/api/public/xrayr/user/list'', req_node_id = 4,
          req_if_none_match = [] \<rparr>]"
  using C4_unsupported_node_type [of "test_client ''Foo''" "test_env (\<lambda>r. Inr (test_response 200 ''v1'' 0 ''data''))" "[]"]
        C4_unsupported_node_type [of "test_client ''Vless''" "test_env (\<lambda>r. Inr (test_response 200 ''v1'' 0 ''data''))" "[]"]
  by (simp add: test_env_def test_client_def test_response_def spy_def users_request_def
        eTag_def)

text \<open>
  C5 (amended). With a transport error passed in, \<open>parseResponse\<close> fails with the URL
  and the error text; without one, a status above 400 fails with the URL, the body and the
  absent error; otherwise a nonzero code fails with the serialized envelope; otherwise the
  envelope is returned. A status of exactly 400 is never a status failure.
\<close>

theorem C5_parseResponse_rules:
  "(err = Some e \<longrightarrow>
      parseResponse env c res path err = Inl (RequestFailed (c_APIHost c @ path) e))
   \<and> (err = None \<and> res_StatusCode res > 400 \<longrightarrow>
      parseResponse env c res path err
        = Inl (RemoteFailure (c_APIHost c @ path) (res_Body res) None))
   \<and> (err = None \<and> res_StatusCode res \<le> 400 \<and> r_Code (res_Result res) \<noteq> 0 \<longrightarrow>
      parseResponse env c res path err
        = Inl (RetInvalid (marshalResponse env (res_Result res))))
   \<and> (err = None \<and> res_StatusCode res \<le> 400 \<and> r_Code (res_Result res) = 0 \<longrightarrow>
      parseResponse env c res path err = Inr (res_Result res))
   \<and> (err = None \<and> res_StatusCode res = 400 \<longrightarrow>
      (\<forall>u b x. parseResponse env c res path err \<noteq> Inl (RemoteFailure u b x)))"
  by (simp add: parseResponse_def assembleURL_def Let_def)

theorem C5_parseResponse_rules_witness:
  "parseResponse (test_env (\<lambda>r. Inl ''timeout'')) (test_client ''V2ray'')
      (test_response 500 ''v1'' 0 ''data'') ''/p'' (Some ''timeout'')
     = Inl (RequestFailed ''http://127.0.0.1:3000/p'' ''timeout'')
   \<and> parseResponse (test_env (\<lambda>r. Inl ''timeout'')) (test_client ''V2ray'')
      (test_response 401 ''v1'' 0 ''data'') ''/p'' None
     = Inl (RemoteFailure ''http://127.0.0.1:3000/p'' ''body'' None)
   \<and> parseResponse (test_env (\<lambda>r. Inl ''timeout'')) (test_client ''V2ray'')
      (test_response 400 ''v1'' 7 ''data'') ''/p'' None
     = Inl (RetInvalid ''msg'')
   \<and> parseResponse (test_env (\<lambda>r. Inl ''timeout'')) (test_client ''V2ray'')
      (test_response 400 ''v1'' 0 ''data'') ''/p'' None
     = Inr \<lparr> r_Code = 0, r_Msg = ''msg'', r_Data = ''data'' \<rparr>"
  using
    C5_parseResponse_rules [of "Some ''timeout''" "''timeout''" "test_env (\<lambda>r. Inl ''timeout'')"
           "test_client ''V2ray''" "test_response 500 ''v1'' 0 ''data''" "''/p''"]
    C5_parseResponse_rules [of None _ "test_env (\<lambda>r. Inl ''timeout'')"
           "test_client ''V2ray''" "test_response 401 ''v1'' 0 ''data''" "''/p''"]
    C5_parseResponse_rules [of None _ "test_env (\<lambda>r. Inl ''timeout'')"
           "test_client ''V2ray''" "test_response 400 ''v1'' 7 ''data''" "''/p''"]
    C5_parseResponse_rules [of None _ "test_env (\<lambda>r. Inl ''timeout'')"
           "test_client ''V2ray''" "test_response 400 ''v1'' 0 ''data''" "''/p''"]
  by (simp add: test_response_def test_client_def test_env_def)

text \<open>
  C5 as stated fails: with a transport error passed in, a response of status above 400 is
  settled by the error rule, whose failure carries the URL and the error text and not the
  body.
\<close>

theorem C5_parseResponse_rules_counterexample:
  "res_StatusCode (test_response 500 ''v1'' 0 ''data'') > 400
   \<and> parseResponse (test_env (\<lambda>r. Inl ''timeout'')) (test_client ''V2ray'')
         (test_response 500 ''v1'' 0 ''data'') ''/api/public/xrayr/node/info'' (Some ''timeout'')
       = Inl (RequestFailed ''http://127.0.0.1:3000/api/public/xrayr/node/info'' ''timeout'')"
  by (simp add: parseResponse_def test_response_def test_client_def assembleURL_def)

text \<open>
  C6. When the transport answers the node-info request with status 304, \<open>GetNodeInfo\<close>
  returns the not-modified error of the node and the client as it was; when it answers the
  user-list request of a client of a supported node type with status 304,
  \<open>GetUserList\<close> returns the not-modified error of the users and the client as it was.
  This holds whatever the body, the envelope and the decoders are: nothing of them is
  read. No result of \<open>parseResponse\<close> is a not-modified error.
\<close>

theorem C6_not_modified:
  "(post env (node_request c) net = (Inr res, net1) \<and> res_StatusCode res = 304 \<longrightarrow>
      GetNodeInfo env c net = (Inl NodeNotModified, c, net1))
   \<and> (c_NodeType c \<in> {''V2ray'', ''Trojan'', ''Shadowsocks'', ''Vmess'', ''Vless''}
        \<and> post env (users_request c) net = (Inr res, net1) \<and> res_StatusCode res = 304 \<longrightarrow>
      GetUserList env c net = (Inl UserNotModified, c, net1))
   \<and> (\<forall>res2 path err.
         parseResponse env c res2 path err \<notin> {Inl NodeNotModified, Inl UserNotModified})"
  by (auto simp: GetNodeInfo_def GetUserList_def parseResponse_def supported_node_types_def Let_def
           split: option.splits)

theorem C6_not_modified_witness:
  "GetNodeInfo (test_env (\<lambda>r. Inr (test_response 304 ''v1'' 0 ''data''))) (test_client ''Trojan'') []
     = (Inl NodeNotModified, test_client ''Trojan'', [node_request (test_client ''Trojan'')])
   \<and> GetUserList (test_env (\<lambda>r. Inr (test_response 304 ''v1'' 0 ''data''))) (test_client ''Trojan'') []
     = (Inl UserNotModified, test_client ''Trojan'', [users_request (test_client ''Trojan'')])"
proof -
  let ?E = "test_env (\<lambda>r. Inr (test_response 304 ''v1'' 0 ''data''))"
  let ?C = "test_client ''Trojan''"
  let ?R = "test_response 304 ''v1'' 0 ''data''"
  have p: "post ?E q [] = (Inr ?R, [q])" for q
    by (simp add: test_env_def spy_def)
  have s: "res_StatusCode ?R = 304"
    by (simp add: test_response_def)
  have t: "c_NodeType ?C = ''Trojan''"
    by (simp add: test_client_def)
  from C6_not_modified [where env = ?E and c = ?C and net = "[]" and res = ?R
         and ?net1.0 = "[node_request ?C]"] p s
  have a: "GetNodeInfo ?E ?C [] = (Inl NodeNotModified, ?C, [node_request ?C])"
    by simp
  from C6_not_modified [where env = ?E and c = ?C and net = "[]" and res = ?R
         and ?net1.0 = "[users_request ?C]"] p s t
  have b: "GetUserList ?E ?C [] = (Inl UserNotModified, ?C, [users_request ?C])"
    by simp
  from a b show ?thesis by simp
qed

text \<open>
  C7. When \<open>GetUserList\<close> returns the records \<open>us\<close> for the decoded panel list, there is
  one record per panel user, in order, and the email of each is the panel's user name
  itself when that name is an email address of the grammar, and the user name followed by
  \<open>@vpnboard.user\<close> when it is not. The check of the source (the anchored pattern) and
  the grammar accept the same strings.
\<close>

theorem C7_email_identity:
  assumes "fst (GetUserList env c net) = Inr us"
    and "post env (users_request c) net = (Inr res, net1)"
    and "unmarshalUserList env (r_Data (res_Result res)) = Inr ulr"
  shows "length us = length (ulr_List ulr)
         \<and> (\<forall>i < length us.
               ui_Email (us ! i) =
                 (if email_grammar (uli_UserName (ulr_List ulr ! i))
                  then uli_UserName (ulr_List ulr ! i)
                  else uli_UserName (ulr_List ulr ! i) @ ''@vpnboard.user''))"
proof -
  from assms(1) obtain res2 :: http_response and ulr2 :: UserListResponse and net2 where
    p: "post env (users_request c) net = (Inr res2, net2)"
    and d: "unmarshalUserList env (r_Data (res_Result res2)) = Inr ulr2"
    and us: "us = map (userInfo env (update_eTag c ''users'' res2 ''Etag'')) (ulr_List ulr2)"
    by (rule GetUserList_Inr)
  from p assms(2) have "res2 = res" by simp
  with d assms(3) have "ulr2 = ulr" by simp
  with us show ?thesis
    by (simp add: userInfo_def isEmailFormat_grammar)
qed

theorem C7_email_identity_witness:
  "email_grammar ''a@b.com'' \<and> \<not> email_grammar ''plainuser''
   \<and> (\<exists>us. fst (GetUserList (test_env (\<lambda>r. Inr (test_response 200 ''v1'' 0 ''data'')))
                (test_client ''V2ray'') []) = Inr us
          \<and> map ui_Email us = [''a@b.com'', ''plainuser@vpnboard.user''])"
proof -
  let ?E = "test_env (\<lambda>r. Inr (test_response 200 ''v1'' 0 ''data''))"
  let ?C = "test_client ''V2ray''"
  let ?us = "[\<lparr>ui_UID = 1, ui_UUID = ''u-1'', ui_Email = ''a@b.com'',
               ui_Passwd = (if ''V2ray'' = ''Shadowsocks'' then ''u-1'' else []),
               ui_SpeedLimit = 1250000, ui_DeviceLimit = 2\<rparr>,
              \<lparr>ui_UID = 2, ui_UUID = ''u-2'', ui_Email = ''plainuser@vpnboard.user'',
               ui_Passwd = (if ''V2ray'' = ''Shadowsocks'' then ''u-2'' else []),
               ui_SpeedLimit = 0, ui_DeviceLimit = 0\<rparr>]"
  have g: "fst (GetUserList ?E ?C []) = Inr ?us"
    by (rule test_GetUserList) (simp add: supported_node_types_def)
  have p: "post ?E (users_request ?C) []
             = (Inr (test_response 200 ''v1'' 0 ''data''), [users_request ?C])"
    by (simp add: test_env_def spy_def)
  have d: "unmarshalUserList ?E (r_Data (res_Result (test_response 200 ''v1'' 0 ''data'')))
             = Inr \<lparr> ulr_List = test_users \<rparr>"
    by (simp add: test_env_def test_response_def)
  have e: "email_grammar ''a@b.com''" "\<not> email_grammar ''plainuser''"
    using isEmailFormat_examples by (simp_all add: isEmailFormat_grammar)
  from C7_email_identity [OF g p d] have "\<forall>i < 2. ui_Email (?us ! i) =
       (if email_grammar (uli_UserName (test_users ! i)) then uli_UserName (test_users ! i)
        else uli_UserName (test_users ! i) @ ''@vpnboard.user'')"
    by simp
  with e g show ?thesis by simp
qed

text \<open>
  C8. In every user record \<open>GetUserList\<close> returns, the password equals the uuid when the
  client's node type is Shadowsocks, and is empty (unset) for any other node type.
\<close>

theorem C8_shadowsocks_password:
  assumes "fst (GetUserList env c net) = Inr us"
  shows "\<forall>u \<in> set us. ui_Passwd u = (if c_NodeType c = ''Shadowsocks'' then ui_UUID u else [])"
proof -
  from assms obtain res :: http_response and ulr :: UserListResponse where
    "us = map (userInfo env (update_eTag c ''users'' res ''Etag'')) (ulr_List ulr)"
    by (rule GetUserList_Inr)
  then show ?thesis by (auto simp: userInfo_def)
qed

theorem C8_shadowsocks_password_witness:
  "(\<exists>us. fst (GetUserList (test_env (\<lambda>r. Inr (test_response 200 ''v1'' 0 ''data'')))
               (test_client ''Shadowsocks'') []) = Inr us
         \<and> us \<noteq> [] \<and> (\<forall>u \<in> set us. ui_Passwd u = ui_UUID u))
   \<and> (\<exists>us. fst (GetUserList (test_env (\<lambda>r. Inr (test_response 200 ''v1'' 0 ''data'')))
               (test_client ''Vmess'') []) = Inr us
         \<and> us \<noteq> [] \<and> (\<forall>u \<in> set us. ui_Passwd u = []))"
  using C8_shadowsocks_password [OF test_GetUserList [of "''Shadowsocks''"]] C8_shadowsocks_password [OF test_GetUserList [of "''Vmess''"]]
    test_GetUserList [of "''Shadowsocks''"] test_GetUserList [of "''Vmess''"]
  by (simp add: supported_node_types_def test_client_def)

text \<open>
  C9. \<open>readLocalRuleList\<close> returns no rule and logs nothing for the empty path. When
  the file cannot be opened it logs the error of opening and returns no rule. When the
  file opens, the scanner ends without error and every line compiles, it returns one rule
  per line, in order, with id -1 and the compiled line as pattern (so each non-empty line
  becomes exactly one rule; an empty line is compiled like any other). When some line
  does not compile, the call does not return: \<open>MustCompile\<close> panics at a line that does
  not compile, and no line is skipped.
\<close>

theorem C9_readLocalRuleList:
  "readLocalRuleList fs [] = (Return [], [])
   \<and> (path \<noteq> [] \<and> os_Open fs path = Inl err \<longrightarrow>
        fst (readLocalRuleList fs path) = Return []
        \<and> ''Error when opening file: '' @ err \<in> set (snd (readLocalRuleList fs path)))
   \<and> (path \<noteq> [] \<and> os_Open fs path = Inr file \<and> scan fs file = (ls, None)
        \<and> (\<forall>l \<in> set ls. \<exists>re. compile fs l = Inr re) \<longrightarrow>
        (\<exists>rules. fst (readLocalRuleList fs path) = Return rules
           \<and> length rules = length ls
           \<and> (\<forall>i < length ls. dr_ID (rules ! i) = - 1
                  \<and> compile fs (ls ! i) = Inr (dr_Pattern (rules ! i)))))
   \<and> (path \<noteq> [] \<and> os_Open fs path = Inr file \<and> scan fs file = (ls, scan_err)
        \<and> l \<in> set ls \<and> compile fs l = Inl e \<longrightarrow>
        (\<exists>l' e'. fst (readLocalRuleList fs path) = MustCompilePanic l' e'
           \<and> l' \<in> set ls \<and> compile fs l' = Inl e'))"
proof (intro conjI impI)
  show "readLocalRuleList fs [] = (Return [], [])"
    by (simp add: readLocalRuleList_def)
next
  assume "path \<noteq> [] \<and> os_Open fs path = Inl err"
  then show "fst (readLocalRuleList fs path) = Return []"
    and "''Error when opening file: '' @ err \<in> set (snd (readLocalRuleList fs path))"
    by (simp_all add: readLocalRuleList_def)
next
  assume a: "path \<noteq> [] \<and> os_Open fs path = Inr file \<and> scan fs file = (ls, None)
        \<and> (\<forall>l \<in> set ls. \<exists>re. compile fs l = Inr re)"
  then obtain rules where r: "scan_loop fs ls [] = Inr rules"
    using scan_loop_total [of ls fs "[]"] by blast
  from scan_loop_Inr [OF r]
  have "length rules = length ls"
    "\<forall>i < length ls. dr_ID (rules ! i) = - 1 \<and> compile fs (ls ! i) = Inr (dr_Pattern (rules ! i))"
    by simp_all
  moreover from a r have "fst (readLocalRuleList fs path) = Return rules"
    by (simp add: readLocalRuleList_def)
  ultimately show "\<exists>rules. fst (readLocalRuleList fs path) = Return rules
           \<and> length rules = length ls
           \<and> (\<forall>i < length ls. dr_ID (rules ! i) = - 1
                  \<and> compile fs (ls ! i) = Inr (dr_Pattern (rules ! i)))"
    by blast
next
  assume a: "path \<noteq> [] \<and> os_Open fs path = Inr file \<and> scan fs file = (ls, scan_err)
        \<and> l \<in> set ls \<and> compile fs l = Inl e"
  then obtain l' e' where r: "scan_loop fs ls [] = Inl (l', e')"
    using scan_loop_bad [of l ls fs e "[]"] by blast
  from scan_loop_Inl [OF r] have "l' \<in> set ls \<and> compile fs l' = Inl e'" .
  moreover from a r have "fst (readLocalRuleList fs path) = MustCompilePanic l' e'"
    by (simp add: readLocalRuleList_def)
  ultimately show "\<exists>l' e'. fst (readLocalRuleList fs path) = MustCompilePanic l' e'
           \<and> l' \<in> set ls \<and> compile fs l' = Inl e'"
    by blast
qed

theorem C9_readLocalRuleList_witness:
  "readLocalRuleList test_fs [] = (Return [], [])
   \<and> fst (readLocalRuleList test_fs ''none.txt'') = Return []
   \<and> ''Error when opening file: no such file or directory''
        \<in> set (snd (readLocalRuleList test_fs ''none.txt''))
   \<and> (\<exists>rules. fst (readLocalRuleList test_fs ''rules.txt'') = Return rules
          \<and> length rules = 3 \<and> map dr_ID rules = [- 1, - 1, - 1])
   \<and> (\<exists>l' e'. fst (readLocalRuleList test_fs ''bad.txt'') = MustCompilePanic l' e')"
proof -
  have o: "os_Open test_fs ''none.txt'' = Inl ''no such file or directory''"
    "os_Open test_fs ''rules.txt'' = Inr [''a+'', [], ''b'']"
    "os_Open test_fs ''bad.txt'' = Inr [''a+'', ''('', ''b'']"
    by (simp_all add: test_fs_def)
  have s: "scan test_fs f = (f, None)" for f
    by (simp add: test_fs_def)
  have c: "\<forall>l \<in> set [''a+'', [], ''b'']. \<exists>re. compile test_fs l = Inr re"
    "compile test_fs ''('' = Inl ''missing closing )''"
    by (simp_all add: test_fs_def)
  have three: "(\<forall>i < 3. P i) \<longleftrightarrow> P 0 \<and> P (Suc 0) \<and> P (Suc (Suc 0))" for P :: "nat \<Rightarrow> bool"
    by (auto simp: less_Suc_eq numeral_3_eq_3)
  from C9_readLocalRuleList [of test_fs "''none.txt''" "''no such file or directory''"] o
  have a: "readLocalRuleList test_fs [] = (Return [], [])
     \<and> fst (readLocalRuleList test_fs ''none.txt'') = Return []
     \<and> ''Error when opening file: no such file or directory''
          \<in> set (snd (readLocalRuleList test_fs ''none.txt''))"
    by simp
  let ?L = "[''a+'', [], ''b'']"
  from C9_readLocalRuleList [of test_fs "''rules.txt''" "[]" ?L ?L None "[]" "[]"] o(2) s c(1)
  have "\<exists>rules. fst (readLocalRuleList test_fs ''rules.txt'') = Return rules
          \<and> length rules = length ?L
          \<and> (\<forall>i < length ?L. dr_ID (rules ! i) = - 1
                 \<and> compile test_fs (?L ! i) = Inr (dr_Pattern (rules ! i)))"
    by blast
  then obtain rules where r: "fst (readLocalRuleList test_fs ''rules.txt'') = Return rules"
    "length rules = 3" "\<forall>i < 3. dr_ID (rules ! i) = - 1"
    by auto
  from r(2,3) have "map dr_ID rules = [- 1, - 1, - 1]"
    by (simp add: list_eq_iff_nth_eq three)
  with r have b: "\<exists>rules. fst (readLocalRuleList test_fs ''rules.txt'') = Return rules
          \<and> length rules = 3 \<and> map dr_ID rules = [- 1, - 1, - 1]"
    by auto
  let ?B = "[''a+'', ''('', ''b'']"
  have m: "''('' \<in> set ?B" by simp
  from C9_readLocalRuleList [of test_fs "''bad.txt''" "[]" ?B ?B None "''(''" "''missing closing )''"] o(3) s c(2) m
  have d: "\<exists>l' e'. fst (readLocalRuleList test_fs ''bad.txt'') = MustCompilePanic l' e'"
    by blast
  from a b d show ?thesis by simp
qed

text \<open>
  C10. \<open>parseNodeInfo\<close> returns a node info for every payload and every client;
  \<open>GetNodeInfo\<close> never returns the parse-node-info-failed error; and when it returns
  an unmarshal error, that is the error \<open>json.Unmarshal\<close> gave for the payload of the
  envelope.
\<close>

theorem C10_parseNodeInfo_total:
  "(\<exists>ni. parseNodeInfo env c r = Inr ni)
   \<and> (\<forall>s e. fst (GetNodeInfo env c net) \<noteq> Inl (ParseNodeInfoFailed s e))
   \<and> (\<forall>t e. fst (GetNodeInfo env c net) = Inl (UnmarshalFailed t e) \<longrightarrow>
        (\<exists>res net1. post env (node_request c) net = (Inr res, net1)
           \<and> unmarshalNodeInfo env (r_Data (res_Result res)) = Inl e))"
  by (auto simp: GetNodeInfo_def parseNodeInfo_def parseResponse_def Let_def
           split: prod.splits sum.splits if_splits)

theorem C10_parseNodeInfo_total_witness:
  "fst (GetNodeInfo (test_env (\<lambda>r. Inr (test_response 200 ''v1'' 0 ''{'')))
          (test_client ''V2ray'') [])
     = Inl (UnmarshalFailed ''*vpnboard.NodeInfoResponse'' ''bad json'')
   \<and> unmarshalNodeInfo (test_env (\<lambda>r. Inr (test_response 200 ''v1'' 0 ''{'')))
         (r_Data (res_Result (test_response 200 ''v1'' 0 ''{''))) = Inl ''bad json''
   \<and> (\<exists>ni. parseNodeInfo (test_env (\<lambda>r. Inr (test_response 200 ''v1'' 0 ''{'')))
              (test_client ''V2ray'') test_node = Inr ni)"
  using C10_parseNodeInfo_total [of "test_env (\<lambda>r. Inr (test_response 200 ''v1'' 0 ''{''))"
                "test_client ''V2ray''" test_node "[]"]
        test_GetNodeInfo_bad
  by (simp add: test_env_def spy_def test_response_def node_request_def)

end
